theory Spec2Isabelle
  imports Complex_Main "HOL-Library.Log_Nat"
begin

section \<open>Numbers\<close>

text \<open>
  The program is a single TypeScript/React file, \<^verbatim>\<open>src/App.tsx\<close>. Its values of type
  \<^verbatim>\<open>number\<close> are IEEE double-precision numbers. A finite double is a rational of the form
  \<open>m * 2 ^ k\<close> with \<open>\<bar>m\<bar> < 2 ^ 53\<close>, and a value of type \<open>number\<close> is modelled by the
  rational it denotes. Comparisons of doubles are comparisons of these rationals. An
  arithmetic operation gives the exact result rounded to 53 significant bits, to the nearest
  such number and, halfway between two, to the one whose last bit is 0.

  The exponent range of the format (a result past about \<open>1.8e308\<close> becomes \<^verbatim>\<open>Infinity\<close>, one
  below about \<open>2.2e-308\<close> loses bits), \<^verbatim>\<open>NaN\<close> and the sign of zero are not modelled.
\<close>

type_synonym number = rat

text \<open>
  The binary exponent of a positive rational \<open>a / b\<close>: the \<open>e\<close> with
  \<open>2 ^ e \<le> a / b < 2 ^ (e + 1)\<close>, found from the bit lengths of \<open>a\<close> and \<open>b\<close>.
\<close>

definition expo :: "rat \<Rightarrow> int" where
  "expo x = (case quotient_of x of
               (a, b) \<Rightarrow> let k = bitlen a - bitlen b
                         in if 2 powi k \<le> x then k else k - 1)"

text \<open>The nearest integer, the even one of the two when halfway.\<close>

definition roundTiesToEven :: "rat \<Rightarrow> int" where
  "roundTiesToEven r =
     (let f = \<lfloor>r\<rfloor>; d = r - of_int f
      in if d < 1 / 2 then f
         else if 1 / 2 < d then f + 1
         else if even f then f else f + 1)"

text \<open>
  Rounding to 53 significant bits: with \<open>2 ^ e \<le> \<bar>x\<bar> < 2 ^ (e + 1)\<close>, the doubles around
  \<open>x\<close> are the multiples of \<open>2 ^ (e - 52)\<close>.
\<close>

definition fl :: "rat \<Rightarrow> number" where
  "fl x = (if x = 0 then 0
           else let q = 2 powi (expo \<bar>x\<bar> - 52)
                in of_int (roundTiesToEven (x / q)) * q)"

text \<open>The operators \<^verbatim>\<open>*\<close>, \<^verbatim>\<open>+\<close> and \<^verbatim>\<open>-\<close> of the program.\<close>

definition js_mul :: "number \<Rightarrow> number \<Rightarrow> number" where
  "js_mul a b = fl (a * b)"

definition js_add :: "number \<Rightarrow> number \<Rightarrow> number" where
  "js_add a b = fl (a + b)"

definition js_sub :: "number \<Rightarrow> number \<Rightarrow> number" where
  "js_sub a b = fl (a - b)"

section \<open>Plain data\<close>

text \<open>The anonymous object type \<^verbatim>\<open>{ x: number; y: number }\<close>.\<close>

record xy =
  xy_x :: number
  xy_y :: number

text \<open>\<^verbatim>\<open>interface AdSize { w: number; h: number }\<close>\<close>

record AdSize =
  size_w :: number
  size_h :: number

text \<open>
  The seven fields \<^verbatim>\<open>headline, subhead, cta, primaryColor, darkMode, imageScale,
  imageOffset\<close> occur, with the same names and types, in \<^verbatim>\<open>AdProps\<close>,
  \<^verbatim>\<open>AdPreviewSettings\<close>, \<^verbatim>\<open>Preset\<close> and in the state of \<^verbatim>\<open>App\<close>. They are declared once
  and the four records extend them.
\<close>

record CopyDesign =
  headline :: string
  subhead :: string
  cta :: string
  primaryColor :: string
  darkMode :: bool
  imageScale :: number
  imageOffset :: xy

text \<open>\<^verbatim>\<open>interface Preset\<close>: the seven fields, an id and a name.\<close>

record Preset = CopyDesign +
  preset_id :: string
  preset_name :: string

text \<open>\<^verbatim>\<open>interface AdPreviewSettings\<close>: the seven fields and \<^verbatim>\<open>image: string | null\<close>.\<close>

record AdPreviewSettings = CopyDesign +
  imageSrc :: "string option"

text \<open>
  \<^verbatim>\<open>interface AdProps\<close>. The optional callback \<^verbatim>\<open>onImageOffsetChange\<close> is modelled by
  whether it was passed; what it is called with is the result of the handler below.
  \<^verbatim>\<open>enableDrag\<close> defaults to false where the caller omits it.
\<close>

record AdProps = AdPreviewSettings +
  adSize :: AdSize
  enableDrag :: bool
  onImageOffsetChange :: bool

section \<open>AdCanvas: geometry flags\<close>

text \<open>
  Lines 69 to 71 of \<^verbatim>\<open>App.tsx\<close>: \<^verbatim>\<open>size.w > size.h * 1.5\<close>, \<^verbatim>\<open>size.h > size.w * 1.5\<close> and
  \<^verbatim>\<open>size.h <= 60\<close>. The constant 1.5 is a double.
\<close>

definition isLeaderboard :: "AdSize \<Rightarrow> bool" where
  "isLeaderboard s = (size_w s > js_mul (size_h s) (3 / 2))"

definition isSkyscraper :: "AdSize \<Rightarrow> bool" where
  "isSkyscraper s = (size_h s > js_mul (size_w s) (3 / 2))"

definition isMicro :: "AdSize \<Rightarrow> bool" where
  "isMicro s = (size_h s \<le> 60)"

text \<open>
  The component never stores a layout class; it branches on the flags with the nested
  conditional \<^verbatim>\<open>isLeaderboard ? ... : isSkyscraper ? ... : ...\<close> (lines 128 to 134 and 174 to
  178). \<open>classify\<close> names the branch that conditional takes.
\<close>

datatype LayoutClass = Leaderboard | Skyscraper | Standard

definition classify :: "AdSize \<Rightarrow> LayoutClass" where
  "classify s = (if isLeaderboard s then Leaderboard
                 else if isSkyscraper s then Skyscraper
                 else Standard)"

text \<open>JavaScript truthiness of a \<^verbatim>\<open>string | null\<close>: null and the empty string are falsy.\<close>

definition truthy :: "string option \<Rightarrow> bool" where
  "truthy v = (case v of None \<Rightarrow> False | Some s \<Rightarrow> s \<noteq> [])"

section \<open>AdCanvas: the rendered tree\<close>

text \<open>
  What the image region holds: the \<^verbatim>\<open>img\<close> element with its source, the two lengths of
  \<^verbatim>\<open>translate(..px, ..px)\<close>, the factor of \<^verbatim>\<open>scale(..)\<close> and the cursor; or the
  placeholder \<^verbatim>\<open>div\<close> with its class list and the size of the icon in it.
\<close>

datatype ImageContent =
    Img string xy number string
  | Placeholder string nat

record TextEl =
  el_text :: string
  el_class :: string
  el_fontSize :: string

record ButtonEl =
  btn_label :: string
  btn_backgroundColor :: string
  btn_padding :: string
  btn_fontSize :: string

record Rendered =
  containerClass :: string
  styleWidth :: number
  styleHeight :: number
  innerClass :: string
  imageRegionClass :: string
  imageContent :: ImageContent
  textRegionClass :: string
  headlineEl :: TextEl
  subheadEl :: "TextEl option"
  ctaRegionClass :: string
  ctaButton :: ButtonEl

text \<open>Lines 73 to 80: the palette chosen by \<^verbatim>\<open>darkMode\<close>.\<close>

definition containerBg :: "bool \<Rightarrow> string" where
  "containerBg dark = (if dark then ''bg-slate-900 border-slate-700''
                       else ''bg-white border-slate-200'')"

definition textColor :: "bool \<Rightarrow> string" where
  "textColor dark = (if dark then ''text-white'' else ''text-slate-800'')"

definition subTextColor :: "bool \<Rightarrow> string" where
  "subTextColor dark = (if dark then ''text-slate-300'' else ''text-slate-600'')"

definition placeholderColor :: "bool \<Rightarrow> string" where
  "placeholderColor dark = (if dark then ''bg-slate-800 border-slate-600 text-slate-500''
                            else ''bg-slate-50 border-slate-300 text-slate-300'')"

text \<open>Lines 128 to 134: the class of the image region.\<close>

definition imageRegionClassOf :: "AdSize \<Rightarrow> string" where
  "imageRegionClassOf s =
     (if isLeaderboard s
      then (if isMicro s then ''w-12 ml-auto order-2'' else ''w-1/4 h-full order-last'')
      else if isSkyscraper s then ''w-full h-1/3 mt-8''
      else ''w-full h-1/2 mt-4'')"

text \<open>Lines 139 to 155: the image element when \<^verbatim>\<open>image\<close> is truthy, else the placeholder.\<close>

definition placeholderOf :: "'a AdProps_scheme \<Rightarrow> ImageContent" where
  "placeholderOf p =
     Placeholder
       (''w-full h-full border border-dashed rounded flex items-center justify-center ''
          @ placeholderColor (darkMode p))
       (if isMicro (adSize p) then 12 else 24)"

definition imageContentOf :: "'a AdProps_scheme \<Rightarrow> ImageContent" where
  "imageContentOf p =
     (case imageSrc p of
        None \<Rightarrow> placeholderOf p
      | Some s \<Rightarrow>
          if s \<noteq> []
          then Img s (imageOffset p) (imageScale p)
                 (if enableDrag p then ''grab'' else ''default'')
          else placeholderOf p)"

text \<open>Lines 171 to 179: the font size of the headline.\<close>

definition headlineFontSize :: "AdSize \<Rightarrow> string" where
  "headlineFontSize s =
     (if isMicro s then ''11px''
      else if isLeaderboard s then ''18px''
      else if isSkyscraper s then ''20px''
      else ''18px'')"

text \<open>Lines 183 to 190: the subhead paragraph, rendered only when not micro.\<close>

definition subheadOf :: "'a AdProps_scheme \<Rightarrow> TextEl option" where
  "subheadOf p =
     (if \<not> isMicro (adSize p)
      then Some \<lparr> el_text = subhead p,
                  el_class = ''mt-1 leading-snug font-sans '' @ subTextColor (darkMode p),
                  el_fontSize = (if isSkyscraper (adSize p) then ''14px'' else ''12px'') \<rparr>
      else None)"

text \<open>The value \<^verbatim>\<open>AdCanvas\<close> returns (lines 108 to 217).\<close>

definition AdCanvas :: "'a AdProps_scheme \<Rightarrow> Rendered" where
  "AdCanvas p =
     \<lparr> containerClass = containerBg (darkMode p),
       styleWidth = size_w (adSize p),
       styleHeight = size_h (adSize p),
       innerClass = (if isLeaderboard (adSize p)
                     then ''flex-row items-center justify-between gap-4''
                     else ''flex-col gap-2''),
       imageRegionClass = imageRegionClassOf (adSize p),
       imageContent = imageContentOf p,
       textRegionClass = (if isLeaderboard (adSize p)
                          then ''text-left items-start pl-2''
                          else ''text-center items-center''),
       headlineEl = \<lparr> el_text = headline p,
                        el_class = ''font-bold leading-tight font-sans '' @ textColor (darkMode p),
                        el_fontSize = headlineFontSize (adSize p) \<rparr>,
       subheadEl = subheadOf p,
       ctaRegionClass = (if isLeaderboard (adSize p)
                         then ''w-auto''
                         else ''w-full mt-auto pt-1 justify-center''),
       ctaButton = \<lparr> btn_label = cta p,
                       btn_backgroundColor = primaryColor p,
                       btn_padding = (if isMicro (adSize p) then ''2px 8px'' else ''6px 16px''),
                       btn_fontSize = (if isMicro (adSize p) then ''10px'' else ''12px'') \<rparr> \<rparr>"

section \<open>AdCanvas: dragging\<close>

text \<open>
  The component state of one \<^verbatim>\<open>AdCanvas\<close> (lines 82 to 84): the \<^verbatim>\<open>dragging\<close> flag and the
  two refs, null until the first pointer-down.
\<close>

record DragState =
  dragging :: bool
  dragStartRef :: "xy option"
  offsetStartRef :: "xy option"

text \<open>
  Lines 86 to 92. The argument \<open>e\<close> is \<^verbatim>\<open>(e.clientX, e.clientY)\<close>. The handler is attached
  to the image region.
\<close>

definition handleMouseDown :: "'a AdProps_scheme \<Rightarrow> xy \<Rightarrow> DragState \<Rightarrow> DragState" where
  "handleMouseDown p e d =
     (if \<not> enableDrag p \<or> \<not> onImageOffsetChange p \<or> \<not> truthy (imageSrc p) then d
      else d \<lparr> dragging := True,
               dragStartRef := Some \<lparr> xy_x = xy_x e, xy_y = xy_y e \<rparr>,
               offsetStartRef := Some (imageOffset p) \<rparr>)"

text \<open>
  Lines 94 to 104. The result is the argument of the call of \<^verbatim>\<open>onImageOffsetChange\<close>, or
  \<open>None\<close> where the handler returns without calling it.
\<close>

definition handleMouseMove :: "'a AdProps_scheme \<Rightarrow> xy \<Rightarrow> DragState \<Rightarrow> xy option" where
  "handleMouseMove p e d =
     (if \<not> enableDrag p \<or> \<not> dragging d \<or> \<not> onImageOffsetChange p then None
      else case (dragStartRef d, offsetStartRef d) of
             (Some ds, Some os) \<Rightarrow>
               (let dx = js_sub (xy_x e) (xy_x ds);
                    dy = js_sub (xy_y e) (xy_y ds)
                in Some \<lparr> xy_x = js_add (xy_x os) dx, xy_y = js_add (xy_y os) dy \<rparr>)
           | _ \<Rightarrow> None)"

text \<open>Line 106; bound to mouse-up and mouse-leave of the container.\<close>

definition stopDragging :: "DragState \<Rightarrow> DragState" where
  "stopDragging d = d \<lparr> dragging := False \<rparr>"

section \<open>App: state\<close>

text \<open>
  The state hooks of \<^verbatim>\<open>App\<close> (lines 322 to 345), and the component state of the Billboard's
  \<^verbatim>\<open>AdCanvas\<close>, the one preview rendered with \<^verbatim>\<open>highlightDrag\<close> and a callback.
\<close>

record AppState = CopyDesign +
  images :: "string list"
  activeImageIndex :: int
  presets :: "Preset list"
  billboardDrag :: DragState

text \<open>
  Reading a JavaScript array at an index: \<^verbatim>\<open>undefined\<close> outside \<open>0 \<le> i < length\<close>, never an
  error.
\<close>

definition js_index :: "'a list \<Rightarrow> int \<Rightarrow> 'a option" where
  "js_index xs i = (if 0 \<le> i \<and> i < int (length xs) then Some (xs ! nat i) else None)"

text \<open>
  Line 358, \<^verbatim>\<open>images[activeImageIndex] ?? null\<close>: \<^verbatim>\<open>undefined\<close> becomes \<^verbatim>\<open>null\<close>; both are
  \<open>None\<close> here.
\<close>

definition activeImage :: "'a AppState_scheme \<Rightarrow> string option" where
  "activeImage st = (case js_index (images st) (activeImageIndex st) of
                       None \<Rightarrow> None
                     | Some v \<Rightarrow> Some v)"

text \<open>Lines 409 to 418.\<close>

definition sharedSettings :: "'a AppState_scheme \<Rightarrow> AdPreviewSettings" where
  "sharedSettings st =
     \<lparr> headline = headline st, subhead = subhead st, cta = cta st,
       primaryColor = primaryColor st, darkMode = darkMode st,
       imageScale = imageScale st, imageOffset = imageOffset st,
       imageSrc = activeImage st \<rparr>"

text \<open>
  The props \<^verbatim>\<open>AdPreviewCard\<close> hands to its \<^verbatim>\<open>AdCanvas\<close> (lines 300 to 312):
  \<^verbatim>\<open>enableDrag={highlightDrag}\<close>, and the callback passed through.
\<close>

definition cardProps :: "AdSize \<Rightarrow> AdPreviewSettings \<Rightarrow> bool \<Rightarrow> bool \<Rightarrow> AdProps" where
  "cardProps s settings highlightDrag callback =
     \<lparr> headline = headline settings, subhead = subhead settings, cta = cta settings,
       primaryColor = primaryColor settings, darkMode = darkMode settings,
       imageScale = imageScale settings, imageOffset = imageOffset settings,
       imageSrc = imageSrc settings,
       adSize = s, enableDrag = highlightDrag, onImageOffsetChange = callback \<rparr>"

text \<open>
  The preview cards \<^verbatim>\<open>App\<close> renders (lines 724 to 797), in order: label, size, and whether
  the card gets \<^verbatim>\<open>highlightDrag\<close> together with \<^verbatim>\<open>onImageOffsetChange={setImageOffset}\<close>.
\<close>

definition previewCards :: "(string \<times> AdSize \<times> bool) list" where
  "previewCards =
     [ (''Billboard'',          \<lparr> size_w = 970, size_h = 250 \<rparr>, True),
       (''Medium rectangle'',   \<lparr> size_w = 300, size_h = 250 \<rparr>, False),
       (''Large rectangle'',    \<lparr> size_w = 336, size_h = 280 \<rparr>, False),
       (''Square'',             \<lparr> size_w = 250, size_h = 250 \<rparr>, False),
       (''Leaderboard'',        \<lparr> size_w = 728, size_h = 90 \<rparr>, False),
       (''Mobile leaderboard'', \<lparr> size_w = 320, size_h = 50 \<rparr>, False),
       (''Large mobile'',       \<lparr> size_w = 320, size_h = 100 \<rparr>, False),
       (''Half page'',          \<lparr> size_w = 300, size_h = 600 \<rparr>, False),
       (''Wide skyscraper'',    \<lparr> size_w = 160, size_h = 600 \<rparr>, False),
       (''Vertical rectangle'', \<lparr> size_w = 240, size_h = 400 \<rparr>, False) ]"

definition renderPreviews :: "'a AppState_scheme \<Rightarrow> (string \<times> Rendered) list" where
  "renderPreviews st =
     map (\<lambda>(label, s, drag). (label, AdCanvas (cardProps s (sharedSettings st) drag drag)))
       previewCards"

definition billboardProps :: "'a AppState_scheme \<Rightarrow> AdProps" where
  "billboardProps st =
     cardProps \<lparr> size_w = 970, size_h = 250 \<rparr> (sharedSettings st) True True"

section \<open>App: presets\<close>

text \<open>
  \<^verbatim>\<open>Date.now().toString()\<close> on a clock at or past the epoch: the decimal digits of the
  millisecond count.
\<close>

fun toString :: "nat \<Rightarrow> string" where
  "toString n =
     (if n < 10 then [''0123456789'' ! n]
      else toString (n div 10) @ [''0123456789'' ! (n mod 10)])"

declare toString.simps [simp del]

text \<open>
  Lines 378 to 393. \<open>name\<close> is what \<^verbatim>\<open>window.prompt\<close> returned (null when cancelled),
  \<open>now\<close> is \<^verbatim>\<open>Date.now()\<close>; \<^verbatim>\<open>!name\<close> holds of null and of the empty string. The preset keeps the very \<^verbatim>\<open>imageOffset\<close> object of the
  state; the program never mutates such an object, it only replaces it, so sharing it
  is not observable. \<^verbatim>\<open>slice(0, 10)\<close> is \<open>take 10\<close>.
\<close>

definition handleSavePreset :: "string option \<Rightarrow> nat \<Rightarrow> 'a AppState_scheme \<Rightarrow> 'a AppState_scheme" where
  "handleSavePreset name now st =
     (case name of
        None \<Rightarrow> st
      | Some n \<Rightarrow>
          if n = [] then st
          else
            let preset = \<lparr> headline = headline st, subhead = subhead st, cta = cta st,
                           primaryColor = primaryColor st, darkMode = darkMode st,
                           imageScale = imageScale st, imageOffset = imageOffset st,
                           preset_id = toString now, preset_name = n \<rparr>
            in st \<lparr> presets := take 10 (preset # presets st) \<rparr>)"

text \<open>Lines 395 to 403.\<close>

definition applyPreset :: "Preset \<Rightarrow> 'a AppState_scheme \<Rightarrow> 'a AppState_scheme" where
  "applyPreset preset st =
     st \<lparr> headline := headline preset,
          subhead := subhead preset,
          cta := cta preset,
          primaryColor := primaryColor preset,
          darkMode := darkMode preset,
          imageScale := imageScale preset,
          imageOffset := imageOffset preset \<rparr>"

text \<open>Lines 405 to 407.\<close>

definition deletePreset :: "string \<Rightarrow> 'a AppState_scheme \<Rightarrow> 'a AppState_scheme" where
  "deletePreset i st = st \<lparr> presets := filter (\<lambda>p. preset_id p \<noteq> i) (presets st) \<rparr>"

text \<open>
  Lines 347 to 356: what the effect serialises and writes after every change of the
  presets.
\<close>

definition presetsToStore :: "'a AppState_scheme \<Rightarrow> Preset list" where
  "presetsToStore st = take 10 (presets st)"

section \<open>App: reading the presets at startup\<close>

text \<open>A call that returns a value or throws.\<close>

datatype 'a js = Throws | Returns 'a

text \<open>
  \<^verbatim>\<open>localStorage\<close>: access denied (every call throws), or a table from keys to strings.
\<close>

datatype Storage = Denied | Table "string \<rightharpoonup> string"

definition getItem :: "Storage \<Rightarrow> string \<Rightarrow> string option js" where
  "getItem store k = (case store of Denied \<Rightarrow> Throws | Table m \<Rightarrow> Returns (m k))"

text \<open>
  What \<^verbatim>\<open>JSON.parse\<close> can return: a value of JSON. An object is the list of its
  members in the order of the text.
\<close>

datatype json =
    JNull
  | JBool bool
  | JNum number
  | JStr string
  | JArr "json list"
  | JObj "(string \<times> json) list"

text \<open>
  The body of the \<^verbatim>\<open>try\<close> of lines 338 to 341: \<open>Returns (Some v)\<close> is \<^verbatim>\<open>return v\<close>, and
  \<open>Returns None\<close> is leaving the block without a return. \<^verbatim>\<open>JSON.parse\<close> is a built-in
  of the platform and a parameter here: it throws on text that is not JSON, and the
  program returns what it yields without looking at it.
\<close>

definition loadTry :: "(string \<Rightarrow> json js) \<Rightarrow> Storage \<Rightarrow> json option js" where
  "loadTry JSON_parse store =
     (case getItem store ''ga-visualizer-presets'' of
        Throws \<Rightarrow> Throws
      | Returns None \<Rightarrow> Returns None
      | Returns (Some raw) \<Rightarrow>
          if raw \<noteq> []
          then (case JSON_parse raw of
                  Throws \<Rightarrow> Throws
                | Returns v \<Rightarrow> Returns (Some v))
          else Returns None)"

text \<open>
  Lines 337 to 345, the initialiser of the \<^verbatim>\<open>presets\<close> hook: the value the hook starts
  with, and the lines written by \<^verbatim>\<open>console.warn\<close>. The \<^verbatim>\<open>catch\<close> turns a throw of the
  body into a warning and falls through to \<^verbatim>\<open>return []\<close>.
\<close>

definition loadPresets :: "(string \<Rightarrow> json js) \<Rightarrow> Storage \<Rightarrow> (json \<times> string list) js" where
  "loadPresets JSON_parse store =
     (case loadTry JSON_parse store of
        Returns (Some v) \<Rightarrow> Returns (v, [])
      | Returns None \<Rightarrow> Returns (JArr [], [])
      | Throws \<Rightarrow> Returns (JArr [], [''Could not load presets'']))"

text \<open>
  Reading a property of a value, \<^verbatim>\<open>v.k\<close>: a \<^verbatim>\<open>TypeError\<close> on \<^verbatim>\<open>null\<close>, else the member
  of that name (the last one, where the text repeated a name), the \<^verbatim>\<open>length\<close> of an
  array or of a string, and \<^verbatim>\<open>undefined\<close> (here \<open>None\<close>) for anything else. Only the
  names \<^verbatim>\<open>length\<close>, \<^verbatim>\<open>id\<close> and \<^verbatim>\<open>name\<close> are read.
\<close>

definition getProp :: "json \<Rightarrow> string \<Rightarrow> json option js" where
  "getProp v k =
     (case v of
        JNull \<Rightarrow> Throws
      | JObj members \<Rightarrow> Returns (map_of (rev members) k)
      | JArr xs \<Rightarrow> Returns (if k = ''length'' then Some (JNum (of_nat (length xs))) else None)
      | JStr s \<Rightarrow> Returns (if k = ''length'' then Some (JNum (of_nat (length s))) else None)
      | _ \<Rightarrow> Returns None)"

text \<open>
  Lines 686 to 712 of the render of \<^verbatim>\<open>App\<close>, outside any \<^verbatim>\<open>try\<close>: the hint when
  \<^verbatim>\<open>presets.length === 0\<close>, else \<^verbatim>\<open>presets.map\<close> over the rows, each with its key \<^verbatim>\<open>p.id\<close>
  and its label \<^verbatim>\<open>p.name\<close>. Only an array has a \<^verbatim>\<open>map\<close> to call. What React does with
  the rows afterwards is not part of the model.
\<close>

datatype PresetsPanel =
    EmptyHint
  | Rows "(json option \<times> json option) list"

fun presetRows :: "json list \<Rightarrow> (json option \<times> json option) list js" where
  "presetRows [] = Returns []"
| "presetRows (p # ps) =
     (case getProp p ''id'' of
        Throws \<Rightarrow> Throws
      | Returns i \<Rightarrow>
          (case getProp p ''name'' of
             Throws \<Rightarrow> Throws
           | Returns n \<Rightarrow>
               (case presetRows ps of
                  Throws \<Rightarrow> Throws
                | Returns rows \<Rightarrow> Returns ((i, n) # rows))))"

definition presetsPanel :: "json \<Rightarrow> PresetsPanel js" where
  "presetsPanel v =
     (case getProp v ''length'' of
        Throws \<Rightarrow> Throws
      | Returns len \<Rightarrow>
          if len = Some (JNum 0) then Returns EmptyHint
          else (case v of
                  JArr ps \<Rightarrow> (case presetRows ps of
                                Throws \<Rightarrow> Throws
                              | Returns rows \<Rightarrow> Returns (Rows rows))
                | _ \<Rightarrow> Throws))"

text \<open>
  A preset as a value of JSON, its members in the order of the object literal of lines
  381 to 391; an array of these is what has the declared type \<^verbatim>\<open>Preset[]\<close>.
\<close>

definition jsonOfPreset :: "Preset \<Rightarrow> json" where
  "jsonOfPreset p =
     JObj [ (''id'', JStr (preset_id p)), (''name'', JStr (preset_name p)),
            (''headline'', JStr (headline p)), (''subhead'', JStr (subhead p)),
            (''cta'', JStr (cta p)), (''primaryColor'', JStr (primaryColor p)),
            (''darkMode'', JBool (darkMode p)), (''imageScale'', JNum (imageScale p)),
            (''imageOffset'', JObj [ (''x'', JNum (xy_x (imageOffset p))),
                                    (''y'', JNum (xy_y (imageOffset p))) ]) ]"

text \<open>
  The first render's state (lines 322 to 345) when the value read is the array of the
  presets \<open>ps\<close>.
\<close>

definition initialState :: "Preset list \<Rightarrow> AppState" where
  "initialState ps =
     \<lparr> headline = [], subhead = [], cta = [],
       primaryColor = ''#EF4444'', darkMode = False,
       imageScale = 1, imageOffset = \<lparr> xy_x = 0, xy_y = 0 \<rparr>,
       images = [], activeImageIndex = 0, presets = ps,
       billboardDrag = \<lparr> dragging = False, dragStartRef = None, offsetStartRef = None \<rparr> \<rparr>"

section \<open>App: events\<close>

text \<open>
  What the user can do to the page, each with the data the handler reads:
  \<^item> \<open>ImageLoaded r\<close>: the file reader's \<^verbatim>\<open>onload\<close> with \<^verbatim>\<open>ev.target?.result\<close> (lines 364 to
    372);
  \<^item> \<open>SelectVariant i\<close>: a click on the thumbnail of index \<open>i\<close> (line 505);
  \<^item> \<open>ScaleChange v\<close>: a change of the range input, \<open>v\<close> being
    \<^verbatim>\<open>parseFloat(e.target.value)\<close> (line 539); the input element is declared with
    \<^verbatim>\<open>min="0.5" max="1.5" step="0.05"\<close>, the handler itself checks nothing;
  \<^item> \<open>ToggleDarkMode\<close> (line 557), \<open>SetHeadline\<close>, \<open>SetSubhead\<close>, \<open>SetCta\<close>,
    \<open>SetPrimaryColor\<close> (lines 588, 608, 628, 653 and 665);
  \<^item> \<open>SavePreset name now\<close>: the save button, with the prompt's answer and the clock;
  \<^item> \<open>ApplyPresetAt i\<close>, \<open>DeletePresetAt i\<close>: the two buttons of the listed preset of index
    \<open>i\<close> (lines 698 and 704); there is no such button past the end of the list;
  \<^item> \<open>MouseDown e\<close> on the Billboard's image region, \<open>MouseMove e\<close>, \<open>MouseUp\<close> and
    \<open>MouseLeave\<close> on the Billboard's container. On every other preview \<^verbatim>\<open>enableDrag\<close> is
    false and the handlers change nothing of the state of \<^verbatim>\<open>App\<close>.
\<close>

datatype Event =
    ImageLoaded "string option"
  | SelectVariant nat
  | ScaleChange number
  | ToggleDarkMode
  | SetHeadline string
  | SetSubhead string
  | SetCta string
  | SetPrimaryColor string
  | SavePreset "string option" nat
  | ApplyPresetAt nat
  | DeletePresetAt nat
  | MouseDown xy
  | MouseMove xy
  | MouseUp
  | MouseLeave

text \<open>Lines 364 to 372: append the data and make it the active image.\<close>

definition imageLoaded :: "string option \<Rightarrow> 'a AppState_scheme \<Rightarrow> 'a AppState_scheme" where
  "imageLoaded r st =
     (case r of
        None \<Rightarrow> st
      | Some data \<Rightarrow>
          if data \<noteq> []
          then (let next = images st @ [data]
                in st \<lparr> images := next, activeImageIndex := int (length next) - 1 \<rparr>)
          else st)"

fun step :: "Event \<Rightarrow> AppState \<Rightarrow> AppState" where
  "step (ImageLoaded r) st = imageLoaded r st"
| "step (SelectVariant i) st =
     (if i < length (images st) then st \<lparr> activeImageIndex := int i \<rparr> else st)"
| "step (ScaleChange v) st = st \<lparr> imageScale := v \<rparr>"
| "step ToggleDarkMode st = st \<lparr> darkMode := \<not> darkMode st \<rparr>"
| "step (SetHeadline s) st = st \<lparr> headline := s \<rparr>"
| "step (SetSubhead s) st = st \<lparr> subhead := s \<rparr>"
| "step (SetCta s) st = st \<lparr> cta := s \<rparr>"
| "step (SetPrimaryColor s) st = st \<lparr> primaryColor := s \<rparr>"
| "step (SavePreset name now) st = handleSavePreset name now st"
| "step (ApplyPresetAt i) st =
     (if i < length (presets st) then applyPreset (presets st ! i) st else st)"
| "step (DeletePresetAt i) st =
     (if i < length (presets st) then deletePreset (preset_id (presets st ! i)) st else st)"
| "step (MouseDown e) st =
     st \<lparr> billboardDrag := handleMouseDown (billboardProps st) e (billboardDrag st) \<rparr>"
| "step (MouseMove e) st =
     (case handleMouseMove (billboardProps st) e (billboardDrag st) of
        None \<Rightarrow> st
      | Some off \<Rightarrow> st \<lparr> imageOffset := off \<rparr>)"
| "step MouseUp st = st \<lparr> billboardDrag := stopDragging (billboardDrag st) \<rparr>"
| "step MouseLeave st = st \<lparr> billboardDrag := stopDragging (billboardDrag st) \<rparr>"

text \<open>The events of a session, handled one after the other.\<close>

fun run :: "Event list \<Rightarrow> AppState \<Rightarrow> AppState" where
  "run [] st = st"
| "run (e # es) st = run es (step e st)"

section \<open>Predicates of the statements\<close>

text \<open>The range the slider is declared with, \<^verbatim>\<open>min="0.5" max="1.5"\<close>.\<close>

definition scaleInRange :: "number \<Rightarrow> bool" where
  "scaleInRange v = (1 / 2 \<le> v \<and> v \<le> 3 / 2)"

text \<open>The scale of the state and of every listed preset is in that range.\<close>

definition scaleInv :: "AppState \<Rightarrow> bool" where
  "scaleInv st =
     (scaleInRange (imageScale st) \<and> (\<forall>p \<in> set (presets st). scaleInRange (imageScale p)))"

text \<open>
  A whole number of magnitude at most \<open>2 ^ 51\<close>. On such numbers the one multiplication by
  1.5, and a subtraction followed by an addition, are exact in double precision.
\<close>

definition smallWhole :: "number \<Rightarrow> bool" where
  "smallWhole v = (v = of_int \<lfloor>v\<rfloor> \<and> \<bar>v\<bar> \<le> 2 ^ 51)"

text \<open>The seven fields a preset snapshots have the same values in both records.\<close>

definition sameCopyDesign :: "'a CopyDesign_scheme \<Rightarrow> 'b CopyDesign_scheme \<Rightarrow> bool" where
  "sameCopyDesign a b =
     (headline a = headline b \<and> subhead a = subhead b \<and> cta a = cta b
      \<and> primaryColor a = primaryColor b \<and> darkMode a = darkMode b
      \<and> imageScale a = imageScale b \<and> imageOffset a = imageOffset b)"

text \<open>A save that adds a preset (the prompt gave a name), and a click on a delete button.\<close>

definition isSave :: "Event \<Rightarrow> bool" where
  "isSave e = (case e of SavePreset (Some n) t \<Rightarrow> n \<noteq> [] | _ \<Rightarrow> False)"

definition isDelete :: "Event \<Rightarrow> bool" where
  "isDelete e = (case e of DeletePresetAt i \<Rightarrow> True | _ \<Rightarrow> False)"

section \<open>Double-precision rounding\<close>

lemma two_powi_mono: "m \<le> n \<Longrightarrow> (2::rat) powi m \<le> 2 powi n"
  using power_int_strict_increasing [of m n "2::rat"] by (cases "m = n") auto

lemma two_powi_less_cancel: "(2::rat) powi m < 2 powi n \<Longrightarrow> m < n"
  using two_powi_mono [of n m] by (cases "m < n") auto

lemma of_int_bitlen_bounds:
  assumes "0 < a"
  shows "(2::rat) powi (bitlen a - 1) \<le> of_int a" and "of_int a < (2::rat) powi bitlen a"
proof -
  from assms have l: "1 \<le> bitlen a" by (auto simp: bitlen_alt_def)
  from bitlen_bounds [OF assms] have b1: "2 ^ nat (bitlen a - 1) \<le> a" and b2: "a < 2 ^ nat (bitlen a)"
    by auto
  have "(2::rat) powi (bitlen a - 1) = of_int (2 ^ nat (bitlen a - 1))"
    using l by (simp add: power_int_def)
  also have "\<dots> \<le> of_int a" using b1 by (simp only: of_int_le_iff)
  finally show "(2::rat) powi (bitlen a - 1) \<le> of_int a" .
  have "(of_int a :: rat) < of_int (2 ^ nat (bitlen a))" using b2 by (simp only: of_int_less_iff)
  also have "\<dots> = 2 powi bitlen a" using l by (simp add: power_int_def)
  finally show "of_int a < (2::rat) powi bitlen a" .
qed

lemma expo_bounds:
  assumes "0 < x"
  shows "2 powi expo x \<le> x" and "x < 2 powi (expo x + 1)"
proof -
  obtain a b where q: "quotient_of x = (a, b)" by (cases "quotient_of x")
  have b: "0 < b" using q by (rule quotient_of_denom_pos)
  have x: "x = of_int a / of_int b" using q by (rule quotient_of_div)
  have a: "0 < a" using assms b x by (simp add: zero_less_divide_iff)
  let ?k = "bitlen a - bitlen b"
  have up: "x < 2 powi (?k + 1)"
  proof -
    have "of_int a < (2::rat) powi bitlen a" by (rule of_int_bitlen_bounds [OF a])
    also have "\<dots> = 2 powi (?k + 1) * 2 powi (bitlen b - 1)"
      by (simp flip: power_int_add)
    also have "\<dots> \<le> 2 powi (?k + 1) * of_int b"
      by (rule mult_left_mono [OF of_int_bitlen_bounds(1) [OF b]]) simp
    finally show ?thesis using b by (simp add: x pos_divide_less_eq)
  qed
  have lo: "2 powi (?k - 1) \<le> x"
  proof -
    have "2 powi (?k - 1) * of_int b \<le> 2 powi (?k - 1) * (2::rat) powi bitlen b"
      by (rule mult_left_mono [OF less_imp_le [OF of_int_bitlen_bounds(2) [OF b]]]) simp
    also have "\<dots> = 2 powi (bitlen a - 1)" by (simp flip: power_int_add)
    also have "\<dots> \<le> of_int a" by (rule of_int_bitlen_bounds [OF a])
    finally show ?thesis using b by (simp add: x pos_le_divide_eq)
  qed
  have e: "expo x = (if 2 powi ?k \<le> x then ?k else ?k - 1)"
    by (simp add: expo_def q Let_def)
  show "2 powi expo x \<le> x" using lo by (simp add: e)
  show "x < 2 powi (expo x + 1)" using up by (auto simp: e not_le)
qed

lemma expo_unique:
  assumes "0 < x" and "2 powi e \<le> x" and "x < 2 powi (e + 1)"
  shows "expo x = e"
proof -
  have "(2::rat) powi e < 2 powi (expo x + 1)"
    using assms(2) expo_bounds(2) [OF assms(1)] by (rule le_less_trans)
  then have "e < expo x + 1" by (rule two_powi_less_cancel)
  moreover have "(2::rat) powi expo x < 2 powi (e + 1)"
    using expo_bounds(1) [OF assms(1)] assms(3) by (rule le_less_trans)
  then have "expo x < e + 1" by (rule two_powi_less_cancel)
  ultimately show ?thesis by simp
qed

lemma roundTiesToEven_of_int: "roundTiesToEven (of_int n) = n"
  by (simp add: roundTiesToEven_def)

lemma roundTiesToEven_lower: "r - 1 / 2 \<le> of_int (roundTiesToEven r)"
proof -
  have "r - of_int \<lfloor>r\<rfloor> < 1 / 2 \<or> 1 / 2 \<le> r - of_int \<lfloor>r\<rfloor>" by auto
  moreover have "r < of_int \<lfloor>r\<rfloor> + 1" by linarith
  ultimately show ?thesis
    by (auto simp: roundTiesToEven_def Let_def)
qed

lemma fl_exact:
  assumes "\<bar>m\<bar> < 2 ^ 53"
  shows "fl (of_int m * 2 powi k) = of_int m * 2 powi k"
proof (cases "m = 0")
  case True
  then show ?thesis by (simp add: fl_def)
next
  case False
  let ?x = "of_int m * (2::rat) powi k"
  let ?e = "expo \<bar>?x\<bar>"
  have pos: "0 < \<bar>?x\<bar>" using False by simp
  have ax: "\<bar>?x\<bar> = of_int \<bar>m\<bar> * 2 powi k" by (simp add: abs_mult)
  have "(of_int \<bar>m\<bar> :: rat) < of_int (2 ^ 53)" using assms by (simp only: of_int_less_iff)
  then have "\<bar>?x\<bar> < 2 powi 53 * 2 powi k"
    unfolding ax by (intro mult_strict_right_mono) simp_all
  then have "\<bar>?x\<bar> < 2 powi (53 + k)" by (simp add: power_int_add)
  with expo_bounds(1) [OF pos] have "(2::rat) powi ?e < 2 powi (53 + k)" by (rule le_less_trans)
  then have "?e < 53 + k" by (rule two_powi_less_cancel)
  then have d: "0 \<le> k - (?e - 52)" by simp
  have "?x / 2 powi (?e - 52) = of_int m * 2 powi (k - (?e - 52))"
    by (simp add: power_int_diff)
  also have "\<dots> = of_int (m * 2 ^ nat (k - (?e - 52)))"
    using d by (simp add: power_int_def)
  finally have r: "roundTiesToEven (?x / 2 powi (?e - 52)) = m * 2 ^ nat (k - (?e - 52))"
    by (simp only: roundTiesToEven_of_int)
  have "fl ?x = of_int (m * 2 ^ nat (k - (?e - 52))) * 2 powi (?e - 52)"
    using False by (simp add: fl_def Let_def r del: of_int_mult of_int_power)
  also have "\<dots> = of_int m * (2 powi (k - (?e - 52)) * 2 powi (?e - 52))"
    using d by (simp add: power_int_def)
  also have "\<dots> = ?x" by (simp flip: power_int_add)
  finally show ?thesis .
qed

lemma fl_lower:
  assumes "0 < x"
  shows "x * (1 - 2 powi (- 53)) \<le> fl x"
proof -
  let ?e = "expo \<bar>x\<bar>"
  let ?q = "(2::rat) powi (?e - 52)"
  have e: "2 powi ?e \<le> x" using expo_bounds(1) [of "\<bar>x\<bar>"] assms by simp
  have q: "0 < ?q" by simp
  have "x - ?q / 2 = (x / ?q - 1 / 2) * ?q" by (simp add: field_simps)
  also have "\<dots> \<le> of_int (roundTiesToEven (x / ?q)) * ?q"
    by (rule mult_right_mono [OF roundTiesToEven_lower]) simp
  also have "\<dots> = fl x" using assms by (simp add: fl_def Let_def)
  finally have 1: "x - ?q / 2 \<le> fl x" .
  have "?q / 2 = 2 powi ?e * 2 powi (- 53)"
    by (simp add: power_int_diff power_int_minus field_simps)
  also have "\<dots> \<le> x * 2 powi (- 53)" by (rule mult_right_mono [OF e]) simp
  finally have "x - x * 2 powi (- 53) \<le> x - ?q / 2" by simp
  with 1 show ?thesis by (simp add: algebra_simps)
qed

lemma fl_three_halves_ge:
  assumes "0 < h"
  shows "h \<le> fl (h * (3 / 2))"
proof -
  have "h \<le> h * (3 / 2) * (1 - 2 powi (- 53))" using assms by (simp add: field_simps)
  also have "\<dots> \<le> fl (h * (3 / 2))" by (rule fl_lower) (use assms in simp)
  finally show ?thesis .
qed

lemma smallWhole_int:
  assumes "smallWhole v"
  obtains n :: int where "v = of_int n" and "\<bar>n\<bar> \<le> 2 ^ 51"
proof
  from assms show "v = of_int \<lfloor>v\<rfloor>" by (simp add: smallWhole_def)
  from assms have "\<bar>of_int \<lfloor>v\<rfloor> :: rat\<bar> \<le> of_int (2 ^ 51)" by (simp add: smallWhole_def)
  then have "(of_int \<bar>\<lfloor>v\<rfloor>\<bar> :: rat) \<le> of_int (2 ^ 51)" by (simp only: of_int_abs)
  then show "\<bar>\<lfloor>v\<rfloor>\<bar> \<le> 2 ^ 51" by (simp only: of_int_le_iff)
qed

lemma js_mul_three_halves:
  assumes "smallWhole h"
  shows "js_mul h (3 / 2) = h * (3 / 2)"
proof -
  from assms obtain n :: int where h: "h = of_int n" and n: "\<bar>n\<bar> \<le> 2 ^ 51"
    by (rule smallWhole_int)
  have "\<bar>3 * n\<bar> < 2 ^ 53" using n by simp
  then have "fl (of_int (3 * n) * 2 powi (- 1)) = of_int (3 * n) * 2 powi (- 1)"
    by (rule fl_exact)
  moreover have "h * (3 / 2) = of_int (3 * n) * 2 powi (- 1)" by (simp add: h)
  ultimately show ?thesis by (simp only: js_mul_def)
qed

lemma fl_of_int:
  assumes "\<bar>n\<bar> < 2 ^ 53"
  shows "fl (of_int n) = of_int n"
  using fl_exact [OF assms, of 0] by simp

lemma js_sub_exact:
  assumes "smallWhole a" and "smallWhole b"
  shows "js_sub a b = a - b"
proof -
  from assms(1) obtain n :: int where a: "a = of_int n" and n: "\<bar>n\<bar> \<le> 2 ^ 51"
    by (rule smallWhole_int)
  from assms(2) obtain m :: int where b: "b = of_int m" and m: "\<bar>m\<bar> \<le> 2 ^ 51"
    by (rule smallWhole_int)
  have "\<bar>n - m\<bar> < 2 ^ 53" using n m by simp
  then have "fl (of_int (n - m)) = of_int (n - m)" by (rule fl_of_int)
  then show ?thesis by (simp add: js_sub_def a b)
qed

lemma js_add_sub_exact:
  assumes "smallWhole c" and "smallWhole a" and "smallWhole b"
  shows "js_add c (js_sub a b) = c + (a - b)"
proof -
  from assms(1) obtain k :: int where c: "c = of_int k" and k: "\<bar>k\<bar> \<le> 2 ^ 51"
    by (rule smallWhole_int)
  from assms(2) obtain n :: int where a: "a = of_int n" and n: "\<bar>n\<bar> \<le> 2 ^ 51"
    by (rule smallWhole_int)
  from assms(3) obtain m :: int where b: "b = of_int m" and m: "\<bar>m\<bar> \<le> 2 ^ 51"
    by (rule smallWhole_int)
  have "\<bar>k + (n - m)\<bar> < 2 ^ 53" using k n m by simp
  then have "fl (of_int (k + (n - m))) = of_int (k + (n - m))" by (rule fl_of_int)
  then show ?thesis
    by (simp only: js_add_def js_sub_exact [OF assms(2,3)]) (simp add: a b c)
qed

section \<open>Geometry classification\<close>

lemma isLeaderboard_smallWhole:
  "smallWhole (size_h s) \<Longrightarrow> isLeaderboard s = (size_w s > 3 / 2 * size_h s)"
  by (simp add: isLeaderboard_def js_mul_three_halves mult.commute)

lemma isSkyscraper_smallWhole:
  "smallWhole (size_w s) \<Longrightarrow> isSkyscraper s = (size_h s > 3 / 2 * size_w s)"
  by (simp add: isSkyscraper_def js_mul_three_halves mult.commute)

lemma imageRegionClass_by_class:
  "imageRegionClass (AdCanvas p) =
     (case classify (adSize p) of
        Leaderboard \<Rightarrow> (if isMicro (adSize p) then ''w-12 ml-auto order-2''
                        else ''w-1/4 h-full order-last'')
      | Skyscraper \<Rightarrow> ''w-full h-1/3 mt-8''
      | Standard \<Rightarrow> ''w-full h-1/2 mt-4'')"
  by (simp add: AdCanvas_def imageRegionClassOf_def classify_def)

lemma fl_huge_tie: "fl 9007199254740999 = 9007199254741000"
  by code_simp

lemma fl_huge_even: "fl 13510798882111500 = 13510798882111500"
  by code_simp

text \<open>
  Claim C1 as stated (for every size, \<open>w > 1.5 * h\<close> gives Leaderboard) fails at the
  size 9007199254741000 x 6004799503160666: there \<open>1.5 * h\<close> is 9007199254740999, less
  than \<open>w\<close>, but the product the program computes is rounded to the double
  9007199254741000, which \<open>w\<close> does not exceed; the size is rendered Standard.
\<close>

theorem huge_size_classification_counterexample:
  "size_w \<lparr>size_w = 9007199254741000, size_h = 6004799503160666\<rparr>
     > 3 / 2 * size_h \<lparr>size_w = 9007199254741000, size_h = 6004799503160666\<rparr>
   \<and> classify \<lparr>size_w = 9007199254741000, size_h = 6004799503160666\<rparr> = Standard
   \<and> imageRegionClass (AdCanvas (cardProps
        \<lparr>size_w = 9007199254741000, size_h = 6004799503160666\<rparr>
        (sharedSettings (initialState [])) False False)) = ''w-full h-1/2 mt-4''"
  by (simp add: classify_def isLeaderboard_def isSkyscraper_def js_mul_def
      fl_huge_tie fl_huge_even AdCanvas_def imageRegionClassOf_def cardProps_def)

text \<open>
  Claim C1, amended. For every size whose width and height are whole numbers of
  magnitude at most \<open>2 ^ 51\<close>, the branch \<^verbatim>\<open>AdCanvas\<close> takes, and the class of the image
  region it renders, is Leaderboard when \<open>w > 1.5 * h\<close>, else Skyscraper when
  \<open>h > 1.5 * w\<close>, else Standard. For every size, the micro flag, whatever the branch, is
  set exactly when \<open>h \<le> 60\<close>: then, and only then, the subhead is omitted and the button
  gets its small padding.
\<close>

theorem whole_size_classification:
  "(smallWhole (size_w (adSize p)) \<and> smallWhole (size_h (adSize p)) \<longrightarrow>
      classify (adSize p) =
        (if size_w (adSize p) > 3 / 2 * size_h (adSize p) then Leaderboard
         else if size_h (adSize p) > 3 / 2 * size_w (adSize p) then Skyscraper
         else Standard)
      \<and> imageRegionClass (AdCanvas p) =
        (if size_w (adSize p) > 3 / 2 * size_h (adSize p)
         then (if size_h (adSize p) \<le> 60 then ''w-12 ml-auto order-2''
               else ''w-1/4 h-full order-last'')
         else if size_h (adSize p) > 3 / 2 * size_w (adSize p) then ''w-full h-1/3 mt-8''
         else ''w-full h-1/2 mt-4''))
   \<and> isMicro (adSize p) = (size_h (adSize p) \<le> 60)
   \<and> (subheadEl (AdCanvas p) = None) = (size_h (adSize p) \<le> 60)
   \<and> btn_padding (ctaButton (AdCanvas p)) =
        (if size_h (adSize p) \<le> 60 then ''2px 8px'' else ''6px 16px'')"
proof -
  have micro: "isMicro (adSize p) = (size_h (adSize p) \<le> 60)"
    by (simp add: isMicro_def)
  have sub: "(subheadEl (AdCanvas p) = None) = (size_h (adSize p) \<le> 60)"
    by (simp add: AdCanvas_def subheadOf_def isMicro_def)
  have pad: "btn_padding (ctaButton (AdCanvas p)) =
        (if size_h (adSize p) \<le> 60 then ''2px 8px'' else ''6px 16px'')"
    by (simp add: AdCanvas_def isMicro_def)
  have whole: "classify (adSize p) =
        (if size_w (adSize p) > 3 / 2 * size_h (adSize p) then Leaderboard
         else if size_h (adSize p) > 3 / 2 * size_w (adSize p) then Skyscraper
         else Standard)
      \<and> imageRegionClass (AdCanvas p) =
        (if size_w (adSize p) > 3 / 2 * size_h (adSize p)
         then (if size_h (adSize p) \<le> 60 then ''w-12 ml-auto order-2''
               else ''w-1/4 h-full order-last'')
         else if size_h (adSize p) > 3 / 2 * size_w (adSize p) then ''w-full h-1/3 mt-8''
         else ''w-full h-1/2 mt-4'')"
    if w: "smallWhole (size_w (adSize p))" and h: "smallWhole (size_h (adSize p))"
    by (simp add: imageRegionClass_by_class classify_def isLeaderboard_smallWhole [OF h]
        isSkyscraper_smallWhole [OF w] micro)
  from micro sub pad whole show ?thesis by simp
qed

text \<open>
  At 320x50 (Leaderboard and micro), 300x600 (Skyscraper) and 300x250 (Standard).
\<close>

theorem whole_size_classification_witness:
  "classify \<lparr>size_w = 320, size_h = 50\<rparr> = Leaderboard
   \<and> imageRegionClass (AdCanvas (cardProps \<lparr>size_w = 320, size_h = 50\<rparr>
        (sharedSettings (initialState [])) False False)) = ''w-12 ml-auto order-2''
   \<and> classify \<lparr>size_w = 300, size_h = 600\<rparr> = Skyscraper
   \<and> imageRegionClass (AdCanvas (cardProps \<lparr>size_w = 300, size_h = 600\<rparr>
        (sharedSettings (initialState [])) False False)) = ''w-full h-1/3 mt-8''
   \<and> classify \<lparr>size_w = 300, size_h = 250\<rparr> = Standard"
proof -
  have s: "smallWhole 320" "smallWhole 50" "smallWhole 300" "smallWhole 600" "smallWhole 250"
    by (simp_all add: smallWhole_def)
  have a: "adSize (cardProps s x d c) = s" for s x d c by (simp add: cardProps_def)
  show ?thesis
    using whole_size_classification [of "cardProps \<lparr>size_w = 320, size_h = 50\<rparr>
              (sharedSettings (initialState [])) False False"]
          whole_size_classification [of "cardProps \<lparr>size_w = 300, size_h = 600\<rparr>
              (sharedSettings (initialState [])) False False"]
          whole_size_classification [of "cardProps \<lparr>size_w = 300, size_h = 250\<rparr>
              (sharedSettings (initialState [])) False False"]
    by (simp add: a s)
qed

text \<open>
  Claim C9. For every size with \<open>w > 0\<close> and \<open>h > 0\<close>, \<open>w > 1.5 * h\<close> and \<open>h > 1.5 * w\<close>
  never both hold: the Leaderboard and Skyscraper flags exclude each other, and the
  branch taken is Leaderboard exactly when the first flag is set, Skyscraper exactly
  when the second is, and Standard exactly when neither is.
\<close>

theorem leaderboard_skyscraper_exclusive:
  assumes "0 < size_w s" and "0 < size_h s"
  shows "\<not> (size_w s > size_h s * (3 / 2) \<and> size_h s > size_w s * (3 / 2))
       \<and> \<not> (isLeaderboard s \<and> isSkyscraper s)
       \<and> (classify s = Leaderboard) = isLeaderboard s
       \<and> (classify s = Skyscraper) = isSkyscraper s
       \<and> (classify s = Standard) = (\<not> isLeaderboard s \<and> \<not> isSkyscraper s)"
proof -
  have exact: "\<not> (size_w s > size_h s * (3 / 2) \<and> size_h s > size_w s * (3 / 2))"
  proof
    assume both: "size_w s > size_h s * (3 / 2) \<and> size_h s > size_w s * (3 / 2)"
    then have "size_w s > size_h s" using assms(2) by simp
    moreover from both have "size_h s > size_w s" using assms(1) by simp
    ultimately show False by simp
  qed
  have rounded: "\<not> (isLeaderboard s \<and> isSkyscraper s)"
  proof
    assume both: "isLeaderboard s \<and> isSkyscraper s"
    have "size_h s \<le> fl (size_h s * (3 / 2))" by (rule fl_three_halves_ge [OF assms(2)])
    with both have "size_h s < size_w s" by (simp add: isLeaderboard_def js_mul_def)
    moreover have "size_w s \<le> fl (size_w s * (3 / 2))" by (rule fl_three_halves_ge [OF assms(1)])
    with both have "size_w s < size_h s" by (simp add: isSkyscraper_def js_mul_def)
    ultimately show False by simp
  qed
  from exact rounded show ?thesis
    by (auto simp: classify_def)
qed

theorem leaderboard_skyscraper_exclusive_witness:
  "\<not> (isLeaderboard \<lparr>size_w = 970, size_h = 250\<rparr> \<and> isSkyscraper \<lparr>size_w = 970, size_h = 250\<rparr>)
   \<and> classify \<lparr>size_w = 970, size_h = 250\<rparr> = Leaderboard"
proof -
  have w: "0 < size_w \<lparr>size_w = 970, size_h = 250\<rparr>" by simp
  have h: "0 < size_h \<lparr>size_w = 970, size_h = 250\<rparr>" by simp
  have "smallWhole (size_h \<lparr>size_w = 970, size_h = 250\<rparr>)" by (simp add: smallWhole_def)
  then have "isLeaderboard \<lparr>size_w = 970, size_h = 250\<rparr>"
    by (simp add: isLeaderboard_smallWhole)
  with leaderboard_skyscraper_exclusive [OF w h] show ?thesis by simp
qed

section \<open>The rendered text\<close>

text \<open>
  Claim C5. For every input with \<open>h \<le> 60\<close> (the micro flag set), the rendered tree has
  no subhead element, whichever of the three branches the size takes.
\<close>

theorem micro_omits_subhead:
  "size_h (adSize p) \<le> 60 \<Longrightarrow> subheadEl (AdCanvas p) = None"
  by (simp add: AdCanvas_def subheadOf_def isMicro_def)

text \<open>At 320x50, the mobile leaderboard of the page.\<close>

theorem micro_omits_subhead_witness:
  "size_h (adSize (cardProps \<lparr>size_w = 320, size_h = 50\<rparr>
       (sharedSettings (initialState [])) False False)) \<le> 60
   \<and> subheadEl (AdCanvas (cardProps \<lparr>size_w = 320, size_h = 50\<rparr>
       (sharedSettings (initialState [])) False False)) = None"
proof -
  have h: "size_h (adSize (cardProps \<lparr>size_w = 320, size_h = 50\<rparr>
       (sharedSettings (initialState [])) False False)) \<le> 60"
    by (simp add: cardProps_def)
  from h micro_omits_subhead [OF h] show ?thesis by simp
qed

text \<open>
  Claim C6 as stated (every Standard size renders the headline at 18px and the subhead at
  12px) fails at 60x50: the size is Standard, and micro, so the headline is rendered at
  11px and there is no subhead.
\<close>

theorem standard_micro_fonts_counterexample:
  "classify \<lparr>size_w = 60, size_h = 50\<rparr> = Standard
   \<and> el_fontSize (headlineEl (AdCanvas (cardProps \<lparr>size_w = 60, size_h = 50\<rparr>
        (sharedSettings (initialState [])) False False))) = ''11px''
   \<and> subheadEl (AdCanvas (cardProps \<lparr>size_w = 60, size_h = 50\<rparr>
        (sharedSettings (initialState [])) False False)) = None"
proof -
  have s: "smallWhole 60" "smallWhole 50" by (simp_all add: smallWhole_def)
  show ?thesis
    by (simp add: classify_def isLeaderboard_smallWhole isSkyscraper_smallWhole s isMicro_def
        AdCanvas_def cardProps_def headlineFontSize_def subheadOf_def)
qed

text \<open>
  Claim C6, amended. For every size classified Standard: when the micro flag is not set
  (\<open>h > 60\<close>) the headline is rendered at 18px and the subhead at 12px; when it is set the
  headline is rendered at 11px and the subhead is omitted.
\<close>

theorem standard_fonts:
  assumes "classify (adSize p) = Standard"
  shows "(\<not> isMicro (adSize p) \<longrightarrow>
            el_fontSize (headlineEl (AdCanvas p)) = ''18px''
            \<and> map_option el_fontSize (subheadEl (AdCanvas p)) = Some ''12px'')
       \<and> (isMicro (adSize p) \<longrightarrow>
            el_fontSize (headlineEl (AdCanvas p)) = ''11px''
            \<and> subheadEl (AdCanvas p) = None)"
  using assms
  by (auto simp: classify_def AdCanvas_def headlineFontSize_def subheadOf_def split: if_splits)

text \<open>At 300x250, the medium rectangle of the page.\<close>

theorem standard_fonts_witness:
  "classify (adSize (cardProps \<lparr>size_w = 300, size_h = 250\<rparr>
       (sharedSettings (initialState [])) False False)) = Standard
   \<and> el_fontSize (headlineEl (AdCanvas (cardProps \<lparr>size_w = 300, size_h = 250\<rparr>
       (sharedSettings (initialState [])) False False))) = ''18px''
   \<and> map_option el_fontSize (subheadEl (AdCanvas (cardProps \<lparr>size_w = 300, size_h = 250\<rparr>
       (sharedSettings (initialState [])) False False))) = Some ''12px''"
proof -
  have s: "smallWhole 300" "smallWhole 250" by (simp_all add: smallWhole_def)
  have c: "classify (adSize (cardProps \<lparr>size_w = 300, size_h = 250\<rparr>
       (sharedSettings (initialState [])) False False)) = Standard"
    by (simp add: cardProps_def classify_def isLeaderboard_smallWhole isSkyscraper_smallWhole s)
  have m: "\<not> isMicro (adSize (cardProps \<lparr>size_w = 300, size_h = 250\<rparr>
       (sharedSettings (initialState [])) False False))"
    by (simp add: cardProps_def isMicro_def)
  from c m standard_fonts [OF c] show ?thesis by blast
qed

section \<open>Sessions\<close>

lemma run_append: "run (es @ fs) st = run fs (run es st)"
  by (induction es arbitrary: st) simp_all

section \<open>Image scale\<close>

lemma handleSavePreset_frame:
  "imageScale (handleSavePreset name now st) = imageScale st"
  "imageOffset (handleSavePreset name now st) = imageOffset st"
  "headline (handleSavePreset name now st) = headline st"
  by (simp_all add: handleSavePreset_def Let_def split: option.splits)

lemma handleSavePreset_presets:
  "n \<noteq> [] \<Longrightarrow> presets (handleSavePreset (Some n) now st) =
     take 10 (\<lparr> headline = headline st, subhead = subhead st, cta = cta st,
                 primaryColor = primaryColor st, darkMode = darkMode st,
                 imageScale = imageScale st, imageOffset = imageOffset st,
                 preset_id = toString now, preset_name = n \<rparr> # presets st)"
  by (simp add: handleSavePreset_def Let_def)

lemma handleSavePreset_scales:
  assumes "p \<in> set (presets (handleSavePreset name now st))"
  shows "p \<in> set (presets st) \<or> imageScale p = imageScale st"
proof (cases name)
  case None
  with assms show ?thesis by (simp add: handleSavePreset_def)
next
  case (Some n)
  show ?thesis
  proof (cases "n = []")
    case True
    with Some assms show ?thesis by (simp add: handleSavePreset_def)
  next
    case False
    with Some assms have "p \<in> set (take 10
        (\<lparr> headline = headline st, subhead = subhead st, cta = cta st,
            primaryColor = primaryColor st, darkMode = darkMode st,
            imageScale = imageScale st, imageOffset = imageOffset st,
            preset_id = toString now, preset_name = n \<rparr> # presets st))"
      by (simp add: handleSavePreset_presets)
    then show ?thesis by (auto dest: in_set_takeD)
  qed
qed

lemma step_scaleInv:
  assumes "scaleInv st" and "\<And>v. e = ScaleChange v \<Longrightarrow> scaleInRange v"
  shows "scaleInv (step e st)"
proof (cases e)
  case (SavePreset name now)
  have "scaleInRange (imageScale p)"
    if "p \<in> set (presets (handleSavePreset name now st))" for p
    using handleSavePreset_scales [OF that] assms(1) by (auto simp: scaleInv_def)
  with assms(1) SavePreset show ?thesis by (simp add: scaleInv_def handleSavePreset_frame)
next
  case (ImageLoaded r)
  with assms(1) show ?thesis
    by (simp add: scaleInv_def imageLoaded_def Let_def split: option.splits)
next
  case (MouseMove x)
  with assms(1) show ?thesis by (simp add: scaleInv_def split: option.splits)
qed (use assms in \<open>auto simp: scaleInv_def applyPreset_def deletePreset_def\<close>)

lemma run_scaleInv:
  "scaleInv st \<Longrightarrow> (\<And>v. ScaleChange v \<in> set es \<Longrightarrow> scaleInRange v) \<Longrightarrow> scaleInv (run es st)"
proof (induction es arbitrary: st)
  case Nil
  then show ?case by simp
next
  case (Cons e es)
  have "scaleInv (step e st)"
    by (rule step_scaleInv [OF Cons.prems(1)]) (simp add: Cons.prems(2))
  then show ?case using Cons.IH Cons.prems(2) by simp
qed

text \<open>
  Claim C2 as stated (the stored scale is always within 0.5 and 1.5, an attempted 3.0 being
  stored as 1.5) fails: with a preset of scale 3 in the list read at startup, applying it
  stores 3.
\<close>

theorem scale_stored_unclamped_counterexample:
  "imageScale (step (ApplyPresetAt 0) (initialState
      [\<lparr> headline = ''Sale'', subhead = [], cta = ''Buy'', primaryColor = ''#EF4444'',
          darkMode = False, imageScale = 3, imageOffset = \<lparr> xy_x = 0, xy_y = 0 \<rparr>,
          preset_id = ''1'', preset_name = ''Big'' \<rparr>])) = 3
   \<and> \<not> scaleInRange (imageScale (step (ApplyPresetAt 0) (initialState
      [\<lparr> headline = ''Sale'', subhead = [], cta = ''Buy'', primaryColor = ''#EF4444'',
          darkMode = False, imageScale = 3, imageOffset = \<lparr> xy_x = 0, xy_y = 0 \<rparr>,
          preset_id = ''1'', preset_name = ''Big'' \<rparr>])))"
  by (simp add: initialState_def applyPreset_def scaleInRange_def)

text \<open>
  Claim C2, amended. Nothing in the program clamps: the slider's handler stores the number
  it reads from the control and applying a preset stores the preset's scale, both
  unchanged. From a state whose scale and whose presets' scales are within 0.5 and 1.5,
  every session whose slider changes carry values within 0.5 and 1.5 keeps the stored
  scale, and the scale of every listed preset, within 0.5 and 1.5.
\<close>

theorem scale_in_range_preserved:
  assumes "scaleInRange (imageScale st)"
    and "\<forall>p \<in> set (presets st). scaleInRange (imageScale p)"
    and "\<forall>v. ScaleChange v \<in> set es \<longrightarrow> scaleInRange v"
  shows "scaleInRange (imageScale (run es st))
       \<and> (\<forall>p \<in> set (presets (run es st)). scaleInRange (imageScale p))
       \<and> imageScale (step (ScaleChange v) st) = v
       \<and> imageScale (applyPreset q st) = imageScale q"
proof -
  have "scaleInv st" using assms(1,2) by (simp add: scaleInv_def)
  then have "scaleInv (run es st)"
    by (rule run_scaleInv) (use assms(3) in blast)
  then show ?thesis by (simp add: scaleInv_def applyPreset_def)
qed

text \<open>A session of four events from the first render with no presets.\<close>

theorem scale_in_range_preserved_witness:
  "scaleInRange (imageScale (run [ScaleChange (3 / 4), SavePreset (Some ''A'') 5, ScaleChange 1, ApplyPresetAt 0] (initialState [])))"
proof -
  have 1: "scaleInRange (imageScale (initialState []))"
    by (simp add: initialState_def scaleInRange_def)
  have 2: "\<forall>p \<in> set (presets (initialState [])). scaleInRange (imageScale p)"
    by (simp add: initialState_def)
  have 3: "\<forall>v. ScaleChange v \<in> set [ScaleChange (3 / 4), SavePreset (Some ''A'') 5, ScaleChange 1, ApplyPresetAt 0] \<longrightarrow> scaleInRange v"
    by (auto simp: scaleInRange_def)
  from scale_in_range_preserved [OF 1 2 3] show ?thesis by blast
qed

section \<open>Presets\<close>

lemma step_presets_at_most_10:
  assumes "length (presets st) \<le> 10"
  shows "length (presets (step e st)) \<le> 10"
proof (cases e)
  case (DeletePresetAt i)
  have "length (filter P (presets st)) \<le> 10" for P
    by (rule order_trans [OF length_filter_le assms])
  with DeletePresetAt assms show ?thesis by (simp add: deletePreset_def)
qed (use assms in \<open>auto simp: handleSavePreset_def imageLoaded_def applyPreset_def Let_def
       split: option.splits\<close>)

lemma run_presets_at_most_10:
  "length (presets st) \<le> 10 \<Longrightarrow> length (presets (run es st)) \<le> 10"
  by (induction es arbitrary: st) (simp_all add: step_presets_at_most_10)

text \<open>
  Claim C3. For every preset list, saving a preset under a non-empty name gives the new
  preset followed by the first nine of the previous list: the first element is the new
  preset and the length is \<open>min (previous length + 1) 10\<close>, at most 10. Saving onto a
  list of ten keeps the new preset and the newest nine and drops the last (the oldest).
  What is written to the store is the list itself, and after any further events the list
  still has at most 10 entries.
\<close>

theorem save_preset_newest_first_capped:
  assumes "name \<noteq> []"
  shows "presets (handleSavePreset (Some name) now st) =
           \<lparr> headline = headline st, subhead = subhead st, cta = cta st,
              primaryColor = primaryColor st, darkMode = darkMode st,
              imageScale = imageScale st, imageOffset = imageOffset st,
              preset_id = toString now, preset_name = name \<rparr> # take 9 (presets st)
       \<and> hd (presets (handleSavePreset (Some name) now st)) =
           \<lparr> headline = headline st, subhead = subhead st, cta = cta st,
              primaryColor = primaryColor st, darkMode = darkMode st,
              imageScale = imageScale st, imageOffset = imageOffset st,
              preset_id = toString now, preset_name = name \<rparr>
       \<and> length (presets (handleSavePreset (Some name) now st)) = min (length (presets st) + 1) 10
       \<and> length (presets (handleSavePreset (Some name) now st)) \<le> 10
       \<and> (length (presets st) = 10 \<longrightarrow>
            tl (presets (handleSavePreset (Some name) now st)) = butlast (presets st))
       \<and> presetsToStore (handleSavePreset (Some name) now st) =
            presets (handleSavePreset (Some name) now st)
       \<and> length (presets (run es (handleSavePreset (Some name) now st))) \<le> 10"
proof -
  let ?new = "\<lparr> headline = headline st, subhead = subhead st, cta = cta st,
              primaryColor = primaryColor st, darkMode = darkMode st,
              imageScale = imageScale st, imageOffset = imageOffset st,
              preset_id = toString now, preset_name = name \<rparr>"
  have eq: "presets (handleSavePreset (Some name) now st) = ?new # take 9 (presets st)"
    using assms by (simp add: handleSavePreset_presets take_Cons')
  have b: "length (presets st) = 10 \<longrightarrow> take 9 (presets st) = butlast (presets st)"
    by (simp add: butlast_conv_take)
  have l: "length (presets (handleSavePreset (Some name) now st)) \<le> 10"
    by (simp add: eq)
  have r: "length (presets (run es (handleSavePreset (Some name) now st))) \<le> 10"
    by (rule run_presets_at_most_10 [OF l])
  have s: "presetsToStore (handleSavePreset (Some name) now st) =
            presets (handleSavePreset (Some name) now st)"
    using l by (simp add: presetsToStore_def)
  have m: "length (presets (handleSavePreset (Some name) now st)) = min (length (presets st) + 1) 10"
    by (simp add: eq)
  from eq b l r s m show ?thesis by simp
qed

text \<open>Saving an eleventh preset.\<close>

theorem save_preset_newest_first_capped_witness:
  "''Holiday'' \<noteq> []
   \<and> preset_name (hd (presets (handleSavePreset (Some ''Holiday'') 1700000000000
        (initialState (replicate 10
           \<lparr> headline = ''Old'', subhead = [], cta = [], primaryColor = ''#111827'',
              darkMode = True, imageScale = 1, imageOffset = \<lparr> xy_x = 0, xy_y = 0 \<rparr>,
              preset_id = ''1'', preset_name = ''Old'' \<rparr>))))) = ''Holiday''
   \<and> length (presets (handleSavePreset (Some ''Holiday'') 1700000000000
        (initialState (replicate 10
           \<lparr> headline = ''Old'', subhead = [], cta = [], primaryColor = ''#111827'',
              darkMode = True, imageScale = 1, imageOffset = \<lparr> xy_x = 0, xy_y = 0 \<rparr>,
              preset_id = ''1'', preset_name = ''Old'' \<rparr>)))) = 10"
proof -
  let ?st = "initialState (replicate 10
           \<lparr> headline = ''Old'', subhead = [], cta = [], primaryColor = ''#111827'',
              darkMode = True, imageScale = 1, imageOffset = \<lparr> xy_x = 0, xy_y = 0 \<rparr>,
              preset_id = ''1'', preset_name = ''Old'' \<rparr>)"
  have n: "''Holiday'' \<noteq> []" by simp
  have l: "length (presets ?st) = 10"
    by (simp add: initialState_def)
  note saved = save_preset_newest_first_capped [OF n, of 1700000000000 ?st "[]"]
  have h: "preset_name (hd (presets (handleSavePreset (Some ''Holiday'') 1700000000000 ?st)))
             = ''Holiday''"
    by (simp add: saved [THEN conjunct2, THEN conjunct1])
  have m: "length (presets (handleSavePreset (Some ''Holiday'') 1700000000000 ?st)) = 10"
    by (simp add: saved [THEN conjunct2, THEN conjunct2, THEN conjunct1] l)
  from n h m show ?thesis by (intro conjI)
qed
lemma handleSavePreset_member:
  assumes "q \<in> set (presets (handleSavePreset name now st))"
  shows "q \<in> set (presets st) \<or> (preset_id q = toString now \<and> sameCopyDesign q st)"
proof (cases name)
  case None
  with assms show ?thesis by (simp add: handleSavePreset_def)
next
  case (Some n)
  show ?thesis
  proof (cases "n = []")
    case True
    with Some assms show ?thesis by (simp add: handleSavePreset_def)
  next
    case False
    with Some assms have "q \<in> set (take 10
        (\<lparr> headline = headline st, subhead = subhead st, cta = cta st,
            primaryColor = primaryColor st, darkMode = darkMode st,
            imageScale = imageScale st, imageOffset = imageOffset st,
            preset_id = toString now, preset_name = n \<rparr> # presets st))"
      by (simp add: handleSavePreset_presets)
    then show ?thesis by (auto dest: in_set_takeD simp: sameCopyDesign_def)
  qed
qed

lemma step_presets_unchanged:
  assumes "\<not> isSave e" and "\<not> isDelete e"
  shows "presets (step e st) = presets st"
proof (cases e)
  case (SavePreset name now)
  with assms(1) show ?thesis
    by (auto simp: isSave_def handleSavePreset_def split: option.splits)
next
  case (ImageLoaded r)
  then show ?thesis by (simp add: imageLoaded_def Let_def split: option.splits)
next
  case (MouseMove x)
  then show ?thesis by (simp split: option.splits)
next
  case (DeletePresetAt i)
  with assms(2) show ?thesis by (simp add: isDelete_def)
qed (simp_all add: applyPreset_def)

lemma step_save_presets:
  assumes "isSave e"
  shows "\<exists>new. presets (step e st) = new # take 9 (presets st)"
proof -
  from assms obtain n t where e: "e = SavePreset (Some n) t" and n: "n \<noteq> []"
    by (auto simp: isSave_def split: Event.splits option.splits)
  show ?thesis by (simp add: e handleSavePreset_presets [OF n] take_Cons')
qed

lemma listed_after_run:
  assumes "\<forall>e \<in> set es. \<not> isDelete e"
    and "j < length (presets s)"
    and "j + length (filter isSave es) < 10"
  shows "j + length (filter isSave es) < length (presets (run es s))
       \<and> presets (run es s) ! (j + length (filter isSave es)) = presets s ! j"
  using assms
proof (induction es arbitrary: s j)
  case Nil
  then show ?case by simp
next
  case (Cons e es)
  show ?case
  proof (cases "isSave e")
    case True
    then obtain new where new: "presets (step e s) = new # take 9 (presets s)"
      using step_save_presets by blast
    from True Cons.prems(3) have j9: "j < 9" by simp
    have 1: "Suc j < length (presets (step e s))"
      using Cons.prems(2) j9 by (simp add: new)
    have 2: "Suc j + length (filter isSave es) < 10"
      using True Cons.prems(3) by simp
    have 3: "\<forall>e \<in> set es. \<not> isDelete e" using Cons.prems(1) by simp
    have 4: "presets (step e s) ! Suc j = presets s ! j"
      using j9 by (simp add: new)
    from Cons.IH [OF 3 1 2] 4 True show ?thesis by simp
  next
    case False
    have d: "\<not> isDelete e" using Cons.prems(1) by simp
    have u: "presets (step e s) = presets s" by (rule step_presets_unchanged [OF False d])
    have 1: "j < length (presets (step e s))" using Cons.prems(2) by (simp add: u)
    have 2: "j + length (filter isSave es) < 10" using False Cons.prems(3) by simp
    have 3: "\<forall>e \<in> set es. \<not> isDelete e" using Cons.prems(1) by simp
    from Cons.IH [OF 3 1 2] False show ?thesis by (simp add: u)
  qed
qed

lemma step_keeps_id:
  assumes "\<forall>q \<in> set (presets s). preset_id q = i \<longrightarrow> sameCopyDesign q st"
    and "\<forall>n t. e = SavePreset n t \<longrightarrow> toString t \<noteq> i"
  shows "\<forall>q \<in> set (presets (step e s)). preset_id q = i \<longrightarrow> sameCopyDesign q st"
proof (cases e)
  case (SavePreset name now)
  with assms(2) have "toString now \<noteq> i" by simp
  with assms(1) SavePreset show ?thesis
    by (auto dest: handleSavePreset_member)
next
  case (DeletePresetAt k)
  with assms(1) show ?thesis by (simp add: deletePreset_def)
next
  case (ImageLoaded r)
  with assms(1) show ?thesis by (simp add: imageLoaded_def Let_def split: option.splits)
next
  case (MouseMove x)
  with assms(1) show ?thesis by (simp split: option.splits)
qed (use assms(1) in \<open>simp_all add: applyPreset_def\<close>)

lemma run_keeps_id:
  assumes "\<forall>q \<in> set (presets s). preset_id q = i \<longrightarrow> sameCopyDesign q st"
    and "\<forall>n t. SavePreset n t \<in> set es \<longrightarrow> toString t \<noteq> i"
  shows "\<forall>q \<in> set (presets (run es s)). preset_id q = i \<longrightarrow> sameCopyDesign q st"
  using assms
proof (induction es arbitrary: s)
  case Nil
  then show ?case by simp
next
  case (Cons e es)
  have 1: "\<forall>q \<in> set (presets (step e s)). preset_id q = i \<longrightarrow> sameCopyDesign q st"
    by (rule step_keeps_id [OF Cons.prems(1)]) (use Cons.prems(2) in simp)
  have 2: "\<forall>n t. SavePreset n t \<in> set es \<longrightarrow> toString t \<noteq> i"
    using Cons.prems(2) by simp
  from Cons.IH [OF 1 2] show ?case by simp
qed

lemma applyPreset_same:
  "sameCopyDesign q st \<Longrightarrow> sameCopyDesign (applyPreset q s) st"
  by (simp add: sameCopyDesign_def applyPreset_def)

lemma saved_head:
  assumes "name \<noteq> []"
  shows "presets (handleSavePreset (Some name) now st) \<noteq> []"
    and "sameCopyDesign (hd (presets (handleSavePreset (Some name) now st))) st"
    and "preset_id (hd (presets (handleSavePreset (Some name) now st))) = toString now"
  using assms by (simp_all add: handleSavePreset_presets take_Cons' sameCopyDesign_def)

text \<open>
  Claim C7. Save a preset from a state, then let any events follow. First: if none of them
  is a click on a delete button and fewer than ten of them save a preset, the saved preset
  is still listed, unmodified, at the index that is the number of later saves, and applying
  it there sets the headline, subhead, button label, primary colour, theme flag, image
  scale and image offset to the values of the state it was saved from. Second, with
  deletions allowed: if no other preset, listed before or saved later, carries the id of
  the saved one, applying any listed preset of that id restores those seven values.
\<close>

theorem save_then_apply_restores:
  assumes "name \<noteq> []"
    and "st1 = step (SavePreset (Some name) now) st"
    and "st2 = run es st1"
  shows "((\<forall>e \<in> set es. \<not> isDelete e) \<and> length (filter isSave es) < 10 \<longrightarrow>
            length (filter isSave es) < length (presets st2)
            \<and> presets st2 ! length (filter isSave es) = hd (presets st1)
            \<and> sameCopyDesign (step (ApplyPresetAt (length (filter isSave es))) st2) st)
       \<and> ((\<forall>q \<in> set (presets st). preset_id q \<noteq> toString now)
            \<and> (\<forall>n t. SavePreset n t \<in> set es \<longrightarrow> toString t \<noteq> toString now) \<longrightarrow>
          (\<forall>i < length (presets st2). preset_id (presets st2 ! i) = toString now \<longrightarrow>
             sameCopyDesign (step (ApplyPresetAt i) st2) st))"
proof -
  have st1: "st1 = handleSavePreset (Some name) now st" using assms(2) by simp
  note hd = saved_head [OF assms(1), of now st]
  have pos: "length (filter isSave es) < length (presets st2)
            \<and> presets st2 ! length (filter isSave es) = hd (presets st1)
            \<and> sameCopyDesign (step (ApplyPresetAt (length (filter isSave es))) st2) st"
    if nd: "\<forall>e \<in> set es. \<not> isDelete e" and k: "length (filter isSave es) < 10"
  proof -
    have 0: "0 < length (presets st1)" using hd(1) by (simp add: st1)
    have k0: "0 + length (filter isSave es) < 10" using k by simp
    from listed_after_run [OF nd 0 k0]
    have l: "length (filter isSave es) < length (presets st2)"
      and p: "presets st2 ! length (filter isSave es) = presets st1 ! 0"
      by (simp_all add: assms(3))
    have h: "presets st1 ! 0 = hd (presets st1)"
      using hd(1) by (simp add: st1 hd_conv_nth)
    have "sameCopyDesign (presets st2 ! length (filter isSave es)) st"
      by (simp only: p h) (simp only: st1 hd(2))
    then have "sameCopyDesign (applyPreset (presets st2 ! length (filter isSave es)) st2) st"
      by (rule applyPreset_same)
    with l p h show ?thesis by simp
  qed
  have byid: "sameCopyDesign (step (ApplyPresetAt i) st2) st"
    if fresh: "\<forall>q \<in> set (presets st). preset_id q \<noteq> toString now"
      and later: "\<forall>n t. SavePreset n t \<in> set es \<longrightarrow> toString t \<noteq> toString now"
      and i: "i < length (presets st2)"
      and id: "preset_id (presets st2 ! i) = toString now"
    for i
  proof -
    have 1: "\<forall>q \<in> set (presets st1). preset_id q = toString now \<longrightarrow> sameCopyDesign q st"
      using fresh by (auto simp: st1 dest: handleSavePreset_member)
    from run_keeps_id [OF 1 later]
    have "\<forall>q \<in> set (presets st2). preset_id q = toString now \<longrightarrow> sameCopyDesign q st"
      by (simp add: assms(3))
    with i id have "sameCopyDesign (presets st2 ! i) st" by simp
    then have "sameCopyDesign (applyPreset (presets st2 ! i) st2) st"
      by (rule applyPreset_same)
    with i show ?thesis by simp
  qed
  from pos byid show ?thesis by blast
qed

text \<open>
  Save "Holiday" with the headline "Save 20%", edit the headline, save and apply another
  preset, then apply "Holiday", now at index 1.
\<close>

theorem save_then_apply_restores_witness:
  "headline (step (ApplyPresetAt 1)
      (run [SetHeadline ''Other'', SavePreset (Some ''Plain'') 2000, ApplyPresetAt 0]
         (step (SavePreset (Some ''Holiday'') 1000)
            (step (SetHeadline ''Save 20%'') (initialState []))))) = ''Save 20%''"
proof -
  let ?st = "step (SetHeadline ''Save 20%'') (initialState [])"
  let ?es = "[SetHeadline ''Other'', SavePreset (Some ''Plain'') 2000, ApplyPresetAt 0]"
  have n: "''Holiday'' \<noteq> []" by simp
  have d: "\<forall>e \<in> set ?es. \<not> isDelete e" by (simp add: isDelete_def)
  have k: "length (filter isSave ?es) = 1" by (simp add: isSave_def)
  have h: "headline ?st = ''Save 20%''" by simp
  have k10: "length (filter isSave ?es) < 10" by (simp add: k)
  note listed = save_then_apply_restores [OF n refl refl, where es = "?es",
      THEN conjunct1, rule_format, OF conjI [OF d k10]]
  have "sameCopyDesign (step (ApplyPresetAt 1)
      (run ?es (step (SavePreset (Some ''Holiday'') 1000) ?st))) ?st"
    using listed [THEN conjunct2, THEN conjunct2] unfolding k .
  then have "headline (step (ApplyPresetAt 1)
      (run ?es (step (SavePreset (Some ''Holiday'') 1000) ?st))) = headline ?st"
    by (simp only: sameCopyDesign_def)
  then show ?thesis by (simp only: h)
qed

section \<open>Dragging\<close>

lemma handleMouseMove_after_down:
  assumes "enableDrag p" "onImageOffsetChange p" "truthy (imageSrc p)"
    and "enableDrag p'" "onImageOffsetChange p'"
  shows "handleMouseMove p' e (handleMouseDown p e0 d) =
           Some \<lparr> xy_x = js_add (xy_x (imageOffset p)) (js_sub (xy_x e) (xy_x e0)),
                   xy_y = js_add (xy_y (imageOffset p)) (js_sub (xy_y e) (xy_y e0)) \<rparr>"
  using assms by (simp add: handleMouseMove_def handleMouseDown_def)

lemma billboardProps_simps:
  "enableDrag (billboardProps st)" "onImageOffsetChange (billboardProps st)"
  "imageSrc (billboardProps st) = activeImage st"
  "imageOffset (billboardProps st) = imageOffset st"
  by (simp_all add: billboardProps_def cardProps_def sharedSettings_def)

lemma step_MouseDown:
  "truthy (activeImage st) \<Longrightarrow>
   step (MouseDown e) st =
     st \<lparr> billboardDrag := billboardDrag st
            \<lparr> dragging := True,
              dragStartRef := Some \<lparr> xy_x = xy_x e, xy_y = xy_y e \<rparr>,
              offsetStartRef := Some (imageOffset st) \<rparr> \<rparr>"
  by (simp add: handleMouseDown_def billboardProps_simps)

lemma step_MouseMove_dragging:
  assumes "dragging (billboardDrag st)"
    and "dragStartRef (billboardDrag st) = Some s0"
    and "offsetStartRef (billboardDrag st) = Some o0"
  shows "step (MouseMove e) st =
           st \<lparr> imageOffset := \<lparr> xy_x = js_add (xy_x o0) (js_sub (xy_x e) (xy_x s0)),
                                  xy_y = js_add (xy_y o0) (js_sub (xy_y e) (xy_y s0)) \<rparr> \<rparr>"
  using assms by (simp add: handleMouseMove_def billboardProps_simps)

lemma step_MouseMove_billboardDrag:
  "billboardDrag (step (MouseMove e) st) = billboardDrag st"
  by (simp split: option.splits)

lemma run_moves_billboardDrag:
  "billboardDrag (run (map MouseMove ms) st) = billboardDrag st"
proof (induction ms arbitrary: st)
  case Nil
  show ?case by simp
next
  case (Cons m ms)
  have "billboardDrag (run (map MouseMove ms) (step (MouseMove m) st))
          = billboardDrag (step (MouseMove m) st)"
    by (rule Cons.IH)
  then show ?case by (simp only: list.map run.simps step_MouseMove_billboardDrag)
qed

lemma drag_offset_rounded:
  assumes "truthy (activeImage st)"
  shows "imageOffset (run (MouseDown e0 # map MouseMove (ms @ [e])) st) =
           \<lparr> xy_x = js_add (xy_x (imageOffset st)) (js_sub (xy_x e) (xy_x e0)),
              xy_y = js_add (xy_y (imageOffset st)) (js_sub (xy_y e) (xy_y e0)) \<rparr>"
proof -
  let ?st1 = "step (MouseDown e0) st"
  let ?st2 = "run (map MouseMove ms) ?st1"
  have d1: "billboardDrag ?st1 =
              billboardDrag st \<lparr> dragging := True,
                dragStartRef := Some \<lparr> xy_x = xy_x e0, xy_y = xy_y e0 \<rparr>,
                offsetStartRef := Some (imageOffset st) \<rparr>"
    by (simp only: step_MouseDown [OF assms]) simp
  have d2: "billboardDrag ?st2 = billboardDrag ?st1"
    by (rule run_moves_billboardDrag)
  have pre: "dragging (billboardDrag ?st2)"
    "dragStartRef (billboardDrag ?st2) = Some \<lparr> xy_x = xy_x e0, xy_y = xy_y e0 \<rparr>"
    "offsetStartRef (billboardDrag ?st2) = Some (imageOffset st)"
    unfolding d2 d1 by simp_all
  have last: "step (MouseMove e) ?st2 =
      ?st2 \<lparr> imageOffset :=
               \<lparr> xy_x = js_add (xy_x (imageOffset st)) (js_sub (xy_x e) (xy_x e0)),
                  xy_y = js_add (xy_y (imageOffset st)) (js_sub (xy_y e) (xy_y e0)) \<rparr> \<rparr>"
    using step_MouseMove_dragging [OF pre, of e] by (simp del: step.simps)
  have "run (MouseDown e0 # map MouseMove (ms @ [e])) st = step (MouseMove e) ?st2"
    by (simp add: run_append del: step.simps)
  then show ?thesis by (simp only: last) simp
qed

lemma fl_2_53_plus_1: "fl 9007199254740993 = 9007199254740992"
  by code_simp

text \<open>
  Claim C4 as stated (every pointer-move sets the offset to the starting offset plus the
  distance of the pointer from where it went down) fails from the offset
  (0, 9007199254740992), which applying a stored preset gives: after a pointer-down at
  (0, 0) and a move to (3, 1) the offset is (3, 9007199254740992), the sum
  9007199254740993 not being a double.
\<close>

theorem drag_offset_rounding_counterexample:
  "imageOffset (step (ApplyPresetAt 0) (step (ImageLoaded (Some ''data:image/png;base64,AA''))
      (initialState
        [\<lparr> headline = [], subhead = [], cta = [], primaryColor = ''#EF4444'',
            darkMode = False, imageScale = 1,
            imageOffset = \<lparr> xy_x = 0, xy_y = 9007199254740992 \<rparr>,
            preset_id = ''1'', preset_name = ''Far'' \<rparr>])))
     = \<lparr> xy_x = 0, xy_y = 9007199254740992 \<rparr>
   \<and> imageOffset
       (run (MouseDown \<lparr> xy_x = 0, xy_y = 0 \<rparr> # map MouseMove ([] @ [\<lparr> xy_x = 3, xy_y = 1 \<rparr>]))
         (step (ApplyPresetAt 0) (step (ImageLoaded (Some ''data:image/png;base64,AA''))
           (initialState
             [\<lparr> headline = [], subhead = [], cta = [], primaryColor = ''#EF4444'',
                 darkMode = False, imageScale = 1,
                 imageOffset = \<lparr> xy_x = 0, xy_y = 9007199254740992 \<rparr>,
                 preset_id = ''1'', preset_name = ''Far'' \<rparr>]))))
     = \<lparr> xy_x = 3, xy_y = 9007199254740992 \<rparr>
   \<and> (9007199254740992 :: rat) \<noteq> 9007199254740992 + (1 - 0)"
proof -
  let ?st = "step (ApplyPresetAt 0) (step (ImageLoaded (Some ''data:image/png;base64,AA''))
      (initialState
        [\<lparr> headline = [], subhead = [], cta = [], primaryColor = ''#EF4444'',
            darkMode = False, imageScale = 1,
            imageOffset = \<lparr> xy_x = 0, xy_y = 9007199254740992 \<rparr>,
            preset_id = ''1'', preset_name = ''Far'' \<rparr>]))"
  have a: "truthy (activeImage ?st)"
    by (simp add: initialState_def imageLoaded_def applyPreset_def activeImage_def
        js_index_def truthy_def)
  have o: "imageOffset ?st = \<lparr> xy_x = 0, xy_y = 9007199254740992 \<rparr>"
    by (simp add: initialState_def imageLoaded_def applyPreset_def)
  have x: "js_add 0 (js_sub 3 0) = 3"
    using js_add_sub_exact [of 0 3 0] by (simp add: smallWhole_def)
  have y: "js_add 9007199254740992 (js_sub 1 0) = 9007199254740992"
    using js_sub_exact [of 1 0] by (simp add: smallWhole_def js_add_def fl_2_53_plus_1)
  have "imageOffset
       (run (MouseDown \<lparr> xy_x = 0, xy_y = 0 \<rparr> # map MouseMove ([] @ [\<lparr> xy_x = 3, xy_y = 1 \<rparr>])) ?st)
     = \<lparr> xy_x = 3, xy_y = 9007199254740992 \<rparr>"
    by (simp only: drag_offset_rounded [OF a] o) (simp add: x y)
  with o show ?thesis by simp
qed

text \<open>
  Claim C4, amended. With an image shown, and the offset at pointer-down and the pointer
  positions whole numbers of magnitude at most \<open>2 ^ 51\<close>: after a pointer-down at \<open>e0\<close> on
  the Billboard's image and any pointer-moves, the next pointer-move at \<open>e\<close> sets the image
  offset to the offset at pointer-down plus \<open>e - e0\<close>; the distance is measured from the
  pointer-down, not from the previous move.
\<close>

theorem drag_offset_from_start:
  assumes "truthy (activeImage st)"
    and "smallWhole (xy_x (imageOffset st))" and "smallWhole (xy_y (imageOffset st))"
    and "smallWhole (xy_x e0)" and "smallWhole (xy_y e0)"
    and "smallWhole (xy_x e)" and "smallWhole (xy_y e)"
  shows "imageOffset (run (MouseDown e0 # map MouseMove (ms @ [e])) st) =
           \<lparr> xy_x = xy_x (imageOffset st) + (xy_x e - xy_x e0),
              xy_y = xy_y (imageOffset st) + (xy_y e - xy_y e0) \<rparr>"
  by (simp only: drag_offset_rounded [OF assms(1)]) (simp add: js_add_sub_exact assms)

text \<open>
  From the offset (0, 0), the pointer goes down, then to (10, 5) and to (20, 15) from the
  point it went down at: the offset ends at (20, 15).
\<close>

theorem drag_offset_from_start_witness:
  "truthy (activeImage (step (ImageLoaded (Some ''data:image/png;base64,AA'')) (initialState [])))
   \<and> imageOffset
     (run (MouseDown \<lparr> xy_x = 400, xy_y = 120 \<rparr>
             # map MouseMove ([\<lparr> xy_x = 410, xy_y = 125 \<rparr>] @ [\<lparr> xy_x = 420, xy_y = 135 \<rparr>]))
        (step (ImageLoaded (Some ''data:image/png;base64,AA'')) (initialState [])))
   = \<lparr> xy_x = 20, xy_y = 15 \<rparr>"
proof -
  let ?st = "step (ImageLoaded (Some ''data:image/png;base64,AA'')) (initialState [])"
  have a: "truthy (activeImage ?st)"
    by (simp add: initialState_def imageLoaded_def activeImage_def js_index_def truthy_def)
  have o: "imageOffset ?st = \<lparr> xy_x = 0, xy_y = 0 \<rparr>"
    by (simp add: initialState_def imageLoaded_def)
  have w: "smallWhole (xy_x (imageOffset ?st)) \<and> smallWhole (xy_y (imageOffset ?st))
            \<and> smallWhole (xy_x \<lparr> xy_x = 400, xy_y = 120 \<rparr>)
            \<and> smallWhole (xy_y \<lparr> xy_x = 400, xy_y = 120 \<rparr>)
            \<and> smallWhole (xy_x \<lparr> xy_x = 420, xy_y = 135 \<rparr>)
            \<and> smallWhole (xy_y \<lparr> xy_x = 420, xy_y = 135 \<rparr>)"
    by (simp only: o) (simp add: smallWhole_def)
  note exact = drag_offset_from_start [OF a w [THEN conjunct1]
      w [THEN conjunct2, THEN conjunct1]
      w [THEN conjunct2, THEN conjunct2, THEN conjunct1]
      w [THEN conjunct2, THEN conjunct2, THEN conjunct2, THEN conjunct1]
      w [THEN conjunct2, THEN conjunct2, THEN conjunct2, THEN conjunct2, THEN conjunct1]
      w [THEN conjunct2, THEN conjunct2, THEN conjunct2, THEN conjunct2, THEN conjunct2],
      of "[\<lparr> xy_x = 410, xy_y = 125 \<rparr>]"]
  have "imageOffset
     (run (MouseDown \<lparr> xy_x = 400, xy_y = 120 \<rparr>
             # map MouseMove ([\<lparr> xy_x = 410, xy_y = 125 \<rparr>] @ [\<lparr> xy_x = 420, xy_y = 135 \<rparr>])) ?st)
   = \<lparr> xy_x = 20, xy_y = 15 \<rparr>"
    by (simp only: exact o) simp
  with a show ?thesis by (rule conjI)
qed

section \<open>Startup\<close>

lemma load_missing_or_unparseable:
  "(\<exists>r. loadPresets JSON_parse store = Returns r)
   \<and> (store = Denied \<longrightarrow>
        loadPresets JSON_parse store = Returns (JArr [], [''Could not load presets'']))
   \<and> (store = Table m \<and> (m ''ga-visualizer-presets'' = None \<or> m ''ga-visualizer-presets'' = Some [])
        \<longrightarrow> loadPresets JSON_parse store = Returns (JArr [], []))
   \<and> (store = Table m \<and> m ''ga-visualizer-presets'' = Some raw \<and> raw \<noteq> []
          \<and> JSON_parse raw = Throws
        \<longrightarrow> loadPresets JSON_parse store = Returns (JArr [], [''Could not load presets'']))
   \<and> (store = Table m \<and> m ''ga-visualizer-presets'' = Some raw \<and> raw \<noteq> []
          \<and> JSON_parse raw = Returns v
        \<longrightarrow> loadPresets JSON_parse store = Returns (v, []))"
  by (auto simp: loadPresets_def loadTry_def getItem_def split: js.splits option.splits Storage.splits)

lemma presetsPanel_empty: "presetsPanel (JArr []) = Returns EmptyHint"
  by (simp add: presetsPanel_def getProp_def)

lemma presetRows_typed:
  "presetRows (map jsonOfPreset ps) =
     Returns (map (\<lambda>p. (Some (JStr (preset_id p)), Some (JStr (preset_name p)))) ps)"
  by (induction ps) (simp_all add: jsonOfPreset_def getProp_def)

lemma presetsPanel_typed:
  "presetsPanel (JArr (map jsonOfPreset ps)) =
     Returns (if ps = [] then EmptyHint
              else Rows (map (\<lambda>p. (Some (JStr (preset_id p)), Some (JStr (preset_name p)))) ps))"
  by (simp add: presetsPanel_def getProp_def presetRows_typed)

text \<open>
  Claim C8 says that missing or corrupt data gives the empty list and no crash. That holds
  when the store cannot be read, holds nothing, or holds text that is not JSON (the lemma
  above). It does not hold for the stored text \<^verbatim>\<open>null\<close>, which \<^verbatim>\<open>JSON.parse\<close> accepts: the
  initialiser returns \<^verbatim>\<open>null\<close> as the presets, and the first render throws at
  \<^verbatim>\<open>presets.length\<close>, outside any \<^verbatim>\<open>try\<close>.
\<close>

theorem stored_null_crashes_first_render:
  assumes "JSON_parse ''null'' = Returns JNull"
  shows "loadPresets JSON_parse (Table [''ga-visualizer-presets'' \<mapsto> ''null''])
           = Returns (JNull, [])
       \<and> presetsPanel JNull = Throws"
  using assms by (simp add: loadPresets_def loadTry_def getItem_def presetsPanel_def getProp_def)

text \<open>With a parser that reads \<^verbatim>\<open>null\<close> and throws on everything else.\<close>

theorem stored_null_crashes_first_render_witness:
  "loadPresets (\<lambda>s. if s = ''null'' then Returns JNull else Throws)
     (Table [''ga-visualizer-presets'' \<mapsto> ''null'']) = Returns (JNull, [])
   \<and> presetsPanel JNull = Throws"
proof -
  have p: "(\<lambda>s. if s = ''null'' then Returns JNull else Throws) ''null'' = Returns JNull"
    by simp
  show ?thesis
    by (rule stored_null_crashes_first_render
        [of "\<lambda>s. if s = ''null'' then Returns JNull else Throws", OF p])
qed

section \<open>The active image\<close>

lemma activeImage_out_of_range:
  "\<not> (0 \<le> activeImageIndex st \<and> activeImageIndex st < int (length (images st))) \<Longrightarrow> activeImage st = None"
  by (simp add: activeImage_def js_index_def)

lemma AdCanvas_no_image:
  "activeImage st = None \<Longrightarrow>
   imageContent (AdCanvas (cardProps s (sharedSettings st) drag cb)) =
     Placeholder (''w-full h-full border border-dashed rounded flex items-center justify-center ''
                    @ placeholderColor (darkMode st))
                 (if isMicro s then 12 else 24)"
  by (simp add: AdCanvas_def imageContentOf_def placeholderOf_def cardProps_def sharedSettings_def)

text \<open>
  Claim C10. For every list of images and every index outside \<open>0 \<le> i < length\<close> (so for
  every index when the list is empty), the read of the array gives nothing, the active
  image is null, and every preview card renders the dashed placeholder, with the icon at
  24 or, when the card's height is at most 60, at 12, and no image element.
\<close>

theorem out_of_range_index_placeholder:
  assumes "\<not> (0 \<le> activeImageIndex st \<and> activeImageIndex st < int (length (images st)))"
  shows "js_index (images st) (activeImageIndex st) = None
       \<and> activeImage st = None
       \<and> (\<forall>c \<in> set (renderPreviews st).
            imageContent (snd c) =
              Placeholder (''w-full h-full border border-dashed rounded flex items-center justify-center ''
                             @ placeholderColor (darkMode st))
                          (if 60 < styleHeight (snd c) then 24 else 12))"
proof -
  have a: "activeImage st = None" by (rule activeImage_out_of_range [OF assms])
  have "imageContent (snd c) =
              Placeholder (''w-full h-full border border-dashed rounded flex items-center justify-center ''
                             @ placeholderColor (darkMode st))
                          (if 60 < styleHeight (snd c) then 24 else 12)"
    if "c \<in> set (renderPreviews st)" for c
  proof -
    from that obtain l s d where c: "c = (l, AdCanvas (cardProps s (sharedSettings st) d d))"
      by (auto simp: renderPreviews_def)
    have h: "styleHeight (AdCanvas (cardProps s (sharedSettings st) d d)) = size_h s"
      by (simp add: AdCanvas_def cardProps_def)
    show ?thesis unfolding c snd_conv h AdCanvas_no_image [OF a]
      by (simp add: isMicro_def)
  qed
  with a assms show ?thesis by (simp add: js_index_def)
qed

text \<open>The first render: no image uploaded, index 0.\<close>

theorem out_of_range_index_placeholder_witness:
  "activeImage (initialState []) = None
   \<and> imageContent (AdCanvas (cardProps \<lparr> size_w = 970, size_h = 250 \<rparr>
        (sharedSettings (initialState [])) True True)) =
       Placeholder ''w-full h-full border border-dashed rounded flex items-center justify-center bg-slate-50 border-slate-300 text-slate-300'' 24"
proof -
  have r: "\<not> (0 \<le> activeImageIndex (initialState [])
            \<and> activeImageIndex (initialState []) < int (length (images (initialState []))))"
    by (simp add: initialState_def)
  have m: "(''Billboard'', AdCanvas (cardProps \<lparr> size_w = 970, size_h = 250 \<rparr>
        (sharedSettings (initialState [])) True True)) \<in> set (renderPreviews (initialState []))"
    by (simp add: renderPreviews_def previewCards_def)
  have d: "darkMode (initialState []) = False" by (simp add: initialState_def)
  have h: "styleHeight (AdCanvas (cardProps \<lparr> size_w = 970, size_h = 250 \<rparr>
        (sharedSettings (initialState [])) True True)) = 250"
    by (simp add: AdCanvas_def cardProps_def)
  from out_of_range_index_placeholder [OF r] m
  have "activeImage (initialState []) = None
   \<and> imageContent (snd (''Billboard'', AdCanvas (cardProps \<lparr> size_w = 970, size_h = 250 \<rparr>
        (sharedSettings (initialState [])) True True))) =
       Placeholder (''w-full h-full border border-dashed rounded flex items-center justify-center ''
                             @ placeholderColor (darkMode (initialState [])))
          (if 60 < styleHeight (snd (''Billboard'', AdCanvas (cardProps \<lparr> size_w = 970, size_h = 250 \<rparr>
        (sharedSettings (initialState [])) True True))) then 24 else 12)"
    by blast
  then show ?thesis by (simp only: snd_conv h d) (simp add: placeholderColor_def)
qed

end
